theory Spec2Isabelle
  imports Main
begin

section \<open>Python values, keyword arguments and calls\<close>

text \<open>
  The three prototype modules declare parameter constructors \<^verbatim>\<open>Path\<close>, \<^verbatim>\<open>Query\<close>,
  \<^verbatim>\<open>Body\<close> and \<^verbatim>\<open>Header\<close>. Each one binds its arguments to its signature and
  instantiates the class of the same name of \<^verbatim>\<open>fastapi.params\<close> with keyword arguments.
  Argument values are arbitrary Python objects; the constructors never inspect them, so
  the model keeps the sentinels apart (\<^verbatim>\<open>None\<close>, \<^verbatim>\<open>Undefined\<close>, which is also
  \<^verbatim>\<open>_Unset\<close>, and \<^verbatim>\<open>...\<close>) and leaves every other object opaque.
\<close>

datatype pyval =
    PNone
  | Undefined
  | Ellipsis
  | PBool bool
  | PInt int
  | PStr string
  | PList "pyval list"
  | PDict "(string \<times> pyval) list"
  | PObject nat

text \<open>
  A \<^verbatim>\<open>**kwargs\<close> dictionary, in insertion order. A Python dictionary has pairwise
  distinct keys; a call that gives one keyword twice is rejected by \<open>bind\<close> below.
\<close>

type_synonym kwargs = "(string \<times> pyval) list"

datatype type_error =
    TooManyPositional
  | MultipleValues string
  | UnexpectedKeyword string
  | MissingArgument string

datatype error =
    TypeError type_error
  | NameError string
  | UnknownFieldError string
  | MissingRequiredFieldError string
  | ConstraintViolationError string string
  | ConflictingFieldError string string

text \<open>
  A \<^verbatim>\<open>def\<close> header: the parameters that may be passed by position, every named
  parameter with its default (\<open>None\<close> when the header gives none), and whether the header
  ends in a \<^verbatim>\<open>**name\<close> catch-all.
\<close>

record signature =
  positional :: "string list"
  params :: "(string \<times> pyval option) list"
  var_keyword :: bool

definition then_do :: "error + 'a \<Rightarrow> ('a \<Rightarrow> error + 'b) \<Rightarrow> error + 'b" where
  "then_do r f = (case r of Inl e \<Rightarrow> Inl e | Inr x \<Rightarrow> f x)"

fun first_dup :: "string list \<Rightarrow> string option" where
  "first_dup [] = None"
| "first_dup (k # ks) = (if k \<in> set ks then Some k else first_dup ks)"

fun collect :: "(string \<times> pyval option) list \<Rightarrow> error + kwargs" where
  "collect [] = Inr []"
| "collect ((n, None) # rest) = Inl (TypeError (MissingArgument n))"
| "collect ((n, Some v) # rest) =
     (case collect rest of Inl e \<Rightarrow> Inl e | Inr env \<Rightarrow> Inr ((n, v) # env))"

text \<open>
  Python's argument binding. The result is the local environment (one value per named
  parameter, in the order of the header) and the catch-all dictionary (the keywords that
  name no parameter, in the order of the call). The interpreter fills the positional
  parameters, then binds the keywords (a keyword for a parameter that already has a
  value, or one that names no parameter when there is no catch-all, raises at once), and
  only then reports surplus positional arguments and missing arguments.
\<close>

definition bind :: "signature \<Rightarrow> pyval list \<Rightarrow> kwargs \<Rightarrow> error + kwargs \<times> kwargs" where
  "bind sg pos kw =
     (let given = zip (positional sg) pos @ kw;
          unknown = filter (\<lambda>(k, v). k \<notin> set (map fst (params sg))) kw
      in case first_dup (map fst given) of
           Some k \<Rightarrow> Inl (TypeError (MultipleValues k))
         | None \<Rightarrow>
            (case (if var_keyword sg then [] else unknown) of
               (k, v) # rest \<Rightarrow> Inl (TypeError (UnexpectedKeyword k))
             | [] \<Rightarrow>
                if length (positional sg) < length pos then Inl (TypeError TooManyPositional)
                else
                  then_do
                    (collect (map (\<lambda>(n, d). (n, case map_of given n of Some v \<Rightarrow> Some v | None \<Rightarrow> d))
                       (params sg)))
                    (\<lambda>env. Inr (env, unknown))))"

text \<open>
  Reading local variables to pass them on as keywords \<^verbatim>\<open>n=n\<close>, in the order the call
  is written. Reading an unbound name raises \<^verbatim>\<open>NameError\<close>.
\<close>

fun pass :: "kwargs \<Rightarrow> string list \<Rightarrow> error + kwargs" where
  "pass env [] = Inr []"
| "pass env (n # ns) =
     (case map_of env n of
        None \<Rightarrow> Inl (NameError n)
      | Some v \<Rightarrow> (case pass env ns of Inl e \<Rightarrow> Inl e | Inr r \<Rightarrow> Inr ((n, v) # r)))"

text \<open>
  A dictionary display \<^verbatim>\<open>{k1: v1, ..., **extra}\<close>: items are stored left to right, a
  repeated key keeps its first position and takes the later value.
\<close>

fun dict_set :: "kwargs \<Rightarrow> string \<times> pyval \<Rightarrow> kwargs" where
  "dict_set [] (k, v) = [(k, v)]"
| "dict_set ((k', v') # d) (k, v) =
     (if k' = k then (k, v) # d else (k', v') # dict_set d (k, v))"

definition dict_of :: "kwargs \<Rightarrow> kwargs" where
  "dict_of items = foldl dict_set [] items"

section \<open>The parameter classes\<close>

text \<open>
  The classes \<^verbatim>\<open>params.Path\<close>, \<^verbatim>\<open>params.Query\<close>, \<^verbatim>\<open>params.Body\<close> and
  \<^verbatim>\<open>params.Header\<close> are imported by the prototypes. The object a constructor returns
  is represented by the class that was instantiated and the keyword arguments it was
  instantiated with. A call \<^verbatim>\<open>cls(k1=v1, ..., **extra)\<close> that repeats a keyword raises
  \<^verbatim>\<open>TypeError\<close> before the class is entered.
\<close>

datatype kind = Path | Query | Body | Header

record descriptor =
  d_kind :: kind
  d_kwargs :: kwargs

definition params_call :: "kind \<Rightarrow> kwargs \<Rightarrow> error + descriptor" where
  "params_call K kw =
     (case first_dup (map fst kw) of
        Some k \<Rightarrow> Inl (TypeError (MultipleValues k))
      | None \<Rightarrow> Inr \<lparr>d_kind = K, d_kwargs = kw\<rparr>)"

section \<open>Approach 1: shared type constants\<close>

text \<open>
  \<^verbatim>\<open>approach1_shared_types.py\<close>. Each constructor has one positional parameter
  (\<^verbatim>\<open>default\<close>), keyword-only parameters after the \<^verbatim>\<open>*\<close>, and the catch-all
  \<^verbatim>\<open>**extra\<close>. The body is one call of the class, with every parameter passed
  by keyword (\<^verbatim>\<open>example\<close> before \<^verbatim>\<open>examples\<close>) and \<^verbatim>\<open>**extra\<close> last.
\<close>

definition approach1_Path_sig :: signature where
  "approach1_Path_sig =
     \<lparr>positional = [''default''],
      params =
       [
        (''default'', Some Ellipsis), (''default_factory'', Some Undefined),
        (''alias'', Some PNone), (''alias_priority'', Some Undefined),
        (''validation_alias'', Some PNone), (''serialization_alias'', Some PNone),
        (''title'', Some PNone), (''description'', Some PNone), (''gt'', Some PNone),
        (''ge'', Some PNone), (''lt'', Some PNone), (''le'', Some PNone),
        (''min_length'', Some PNone), (''max_length'', Some PNone),
        (''pattern'', Some PNone), (''regex'', Some PNone), (''discriminator'', Some PNone),
        (''strict'', Some Undefined), (''multiple_of'', Some Undefined),
        (''allow_inf_nan'', Some Undefined), (''max_digits'', Some Undefined),
        (''decimal_places'', Some Undefined), (''examples'', Some PNone),
        (''example'', Some Undefined), (''openapi_examples'', Some PNone),
        (''deprecated'', Some PNone), (''include_in_schema'', Some (PBool True)),
        (''json_schema_extra'', Some PNone)],
      var_keyword = True\<rparr>"

definition approach1_Path_keywords :: "string list" where
  "approach1_Path_keywords =
     [
      ''default'', ''default_factory'', ''alias'', ''alias_priority'', ''validation_alias'',
      ''serialization_alias'', ''title'', ''description'', ''gt'', ''ge'', ''lt'', ''le'',
      ''min_length'', ''max_length'', ''pattern'', ''regex'', ''discriminator'', ''strict'',
      ''multiple_of'', ''allow_inf_nan'', ''max_digits'', ''decimal_places'', ''example'',
      ''examples'', ''openapi_examples'', ''deprecated'', ''include_in_schema'',
      ''json_schema_extra'']"

definition approach1_Query_sig :: signature where
  "approach1_Query_sig =
     \<lparr>positional = [''default''],
      params =
       [
        (''default'', Some Undefined), (''default_factory'', Some Undefined),
        (''alias'', Some PNone), (''alias_priority'', Some Undefined),
        (''validation_alias'', Some PNone), (''serialization_alias'', Some PNone),
        (''title'', Some PNone), (''description'', Some PNone), (''gt'', Some PNone),
        (''ge'', Some PNone), (''lt'', Some PNone), (''le'', Some PNone),
        (''min_length'', Some PNone), (''max_length'', Some PNone),
        (''pattern'', Some PNone), (''regex'', Some PNone), (''discriminator'', Some PNone),
        (''strict'', Some Undefined), (''multiple_of'', Some Undefined),
        (''allow_inf_nan'', Some Undefined), (''max_digits'', Some Undefined),
        (''decimal_places'', Some Undefined), (''examples'', Some PNone),
        (''example'', Some Undefined), (''openapi_examples'', Some PNone),
        (''deprecated'', Some PNone), (''include_in_schema'', Some (PBool True)),
        (''json_schema_extra'', Some PNone)],
      var_keyword = True\<rparr>"

definition approach1_Query_keywords :: "string list" where
  "approach1_Query_keywords =
     [
      ''default'', ''default_factory'', ''alias'', ''alias_priority'', ''validation_alias'',
      ''serialization_alias'', ''title'', ''description'', ''gt'', ''ge'', ''lt'', ''le'',
      ''min_length'', ''max_length'', ''pattern'', ''regex'', ''discriminator'', ''strict'',
      ''multiple_of'', ''allow_inf_nan'', ''max_digits'', ''decimal_places'', ''example'',
      ''examples'', ''openapi_examples'', ''deprecated'', ''include_in_schema'',
      ''json_schema_extra'']"

definition approach1_Body_sig :: signature where
  "approach1_Body_sig =
     \<lparr>positional = [''default''],
      params =
       [
        (''default'', Some Undefined), (''default_factory'', Some Undefined),
        (''embed'', Some PNone), (''media_type'', Some (PStr ''application/json'')),
        (''alias'', Some PNone), (''alias_priority'', Some Undefined),
        (''validation_alias'', Some PNone), (''serialization_alias'', Some PNone),
        (''title'', Some PNone), (''description'', Some PNone), (''gt'', Some PNone),
        (''ge'', Some PNone), (''lt'', Some PNone), (''le'', Some PNone),
        (''min_length'', Some PNone), (''max_length'', Some PNone),
        (''pattern'', Some PNone), (''regex'', Some PNone), (''discriminator'', Some PNone),
        (''strict'', Some Undefined), (''multiple_of'', Some Undefined),
        (''allow_inf_nan'', Some Undefined), (''max_digits'', Some Undefined),
        (''decimal_places'', Some Undefined), (''examples'', Some PNone),
        (''example'', Some Undefined), (''openapi_examples'', Some PNone),
        (''deprecated'', Some PNone), (''include_in_schema'', Some (PBool True)),
        (''json_schema_extra'', Some PNone)],
      var_keyword = True\<rparr>"

definition approach1_Body_keywords :: "string list" where
  "approach1_Body_keywords =
     [
      ''default'', ''default_factory'', ''embed'', ''media_type'', ''alias'',
      ''alias_priority'', ''validation_alias'', ''serialization_alias'', ''title'',
      ''description'', ''gt'', ''ge'', ''lt'', ''le'', ''min_length'', ''max_length'',
      ''pattern'', ''regex'', ''discriminator'', ''strict'', ''multiple_of'',
      ''allow_inf_nan'', ''max_digits'', ''decimal_places'', ''example'', ''examples'',
      ''openapi_examples'', ''deprecated'', ''include_in_schema'', ''json_schema_extra'']"

definition approach1_Path :: "pyval list \<Rightarrow> kwargs \<Rightarrow> error + descriptor" where
  "approach1_Path pos kw =
     then_do (bind approach1_Path_sig pos kw) (\<lambda>(env, extra).
     then_do (pass env approach1_Path_keywords) (\<lambda>explicit.
     params_call Path (explicit @ extra)))"

definition approach1_Query :: "pyval list \<Rightarrow> kwargs \<Rightarrow> error + descriptor" where
  "approach1_Query pos kw =
     then_do (bind approach1_Query_sig pos kw) (\<lambda>(env, extra).
     then_do (pass env approach1_Query_keywords) (\<lambda>explicit.
     params_call Query (explicit @ extra)))"

definition approach1_Body :: "pyval list \<Rightarrow> kwargs \<Rightarrow> error + descriptor" where
  "approach1_Body pos kw =
     then_do (bind approach1_Body_sig pos kw) (\<lambda>(env, extra).
     then_do (pass env approach1_Body_keywords) (\<lambda>explicit.
     params_call Body (explicit @ extra)))"

section \<open>Approach 2: hybrid with keyword forwarding\<close>

text \<open>
  \<^verbatim>\<open>approach2_hybrid.py\<close>. The constructors declare \<^verbatim>\<open>default\<close> (and
  \<^verbatim>\<open>convert_underscores\<close> for \<^verbatim>\<open>Header\<close>) and take every other keyword in
  \<^verbatim>\<open>**common_params\<close>, which goes through \<^verbatim>\<open>_forward_common_params\<close> and then to
  the class.
\<close>

definition forward_common_params_sig :: signature where
  "forward_common_params_sig = \<lparr>positional = [], params = [], var_keyword = True\<rparr>"

definition forward_common_params :: "kwargs \<Rightarrow> error + kwargs" where
  "forward_common_params kw =
     then_do (bind forward_common_params_sig [] kw) (\<lambda>(env, kwargs). Inr kwargs)"

definition approach2_Path_sig :: signature where
  "approach2_Path_sig =
     \<lparr>positional = [''default''], params = [(''default'', Some Ellipsis)], var_keyword = True\<rparr>"

definition approach2_Query_sig :: signature where
  "approach2_Query_sig =
     \<lparr>positional = [''default''], params = [(''default'', Some Undefined)], var_keyword = True\<rparr>"

definition approach2_Header_sig :: signature where
  "approach2_Header_sig =
     \<lparr>positional = [''default''],
      params = [(''default'', Some Undefined), (''convert_underscores'', Some (PBool True))],
      var_keyword = True\<rparr>"

definition approach2_Path :: "pyval list \<Rightarrow> kwargs \<Rightarrow> error + descriptor" where
  "approach2_Path pos kw =
     then_do (bind approach2_Path_sig pos kw) (\<lambda>(env, common_params).
     then_do (forward_common_params common_params) (\<lambda>processed_params.
     then_do (pass env [''default'']) (\<lambda>explicit.
     params_call Path (explicit @ processed_params))))"

definition approach2_Query :: "pyval list \<Rightarrow> kwargs \<Rightarrow> error + descriptor" where
  "approach2_Query pos kw =
     then_do (bind approach2_Query_sig pos kw) (\<lambda>(env, common_params).
     then_do (forward_common_params common_params) (\<lambda>processed_params.
     then_do (pass env [''default'']) (\<lambda>explicit.
     params_call Query (explicit @ processed_params))))"

definition approach2_Header :: "pyval list \<Rightarrow> kwargs \<Rightarrow> error + descriptor" where
  "approach2_Header pos kw =
     then_do (bind approach2_Header_sig pos kw) (\<lambda>(env, common_params).
     then_do (forward_common_params common_params) (\<lambda>processed_params.
     then_do (pass env [''default'', ''convert_underscores'']) (\<lambda>explicit.
     params_call Header (explicit @ processed_params))))"

section \<open>Approach 3: internal helper\<close>

text \<open>
  \<^verbatim>\<open>approach3_internal_helpers.py\<close>. The signatures are written out in full again;
  the bodies call \<^verbatim>\<open>_build_param_kwargs\<close> by keyword, which returns a dictionary
  display of its parameters followed by \<^verbatim>\<open>**extra\<close>, and instantiate the class with
  \<^verbatim>\<open>**kwargs\<close>. \<^verbatim>\<open>Body\<close> passes \<^verbatim>\<open>embed\<close> and \<^verbatim>\<open>media_type\<close> itself, before
  \<^verbatim>\<open>**kwargs\<close>. The helper's parameters have no defaults and no \<^verbatim>\<open>*\<close>.
\<close>

definition build_param_kwargs_sig :: signature where
  "build_param_kwargs_sig =
     \<lparr>positional = [
        ''default'', ''default_factory'', ''alias'', ''alias_priority'',
        ''validation_alias'', ''serialization_alias'', ''title'', ''description'', ''gt'',
        ''ge'', ''lt'', ''le'', ''min_length'', ''max_length'', ''pattern'', ''regex'',
        ''discriminator'', ''strict'', ''multiple_of'', ''allow_inf_nan'', ''max_digits'',
        ''decimal_places'', ''examples'', ''example'', ''openapi_examples'', ''deprecated'',
        ''include_in_schema'', ''json_schema_extra''],
      params =
       [
        (''default'', None), (''default_factory'', None), (''alias'', None),
        (''alias_priority'', None), (''validation_alias'', None),
        (''serialization_alias'', None), (''title'', None), (''description'', None),
        (''gt'', None), (''ge'', None), (''lt'', None), (''le'', None),
        (''min_length'', None), (''max_length'', None), (''pattern'', None),
        (''regex'', None), (''discriminator'', None), (''strict'', None),
        (''multiple_of'', None), (''allow_inf_nan'', None), (''max_digits'', None),
        (''decimal_places'', None), (''examples'', None), (''example'', None),
        (''openapi_examples'', None), (''deprecated'', None), (''include_in_schema'', None),
        (''json_schema_extra'', None)],
      var_keyword = True\<rparr>"

definition build_param_kwargs_keys :: "string list" where
  "build_param_kwargs_keys =
     [
      ''default'', ''default_factory'', ''alias'', ''alias_priority'', ''validation_alias'',
      ''serialization_alias'', ''title'', ''description'', ''gt'', ''ge'', ''lt'', ''le'',
      ''min_length'', ''max_length'', ''pattern'', ''regex'', ''discriminator'', ''strict'',
      ''multiple_of'', ''allow_inf_nan'', ''max_digits'', ''decimal_places'', ''example'',
      ''examples'', ''openapi_examples'', ''deprecated'', ''include_in_schema'',
      ''json_schema_extra'']"

definition approach3_Path_sig :: signature where
  "approach3_Path_sig =
     \<lparr>positional = [''default''],
      params =
       [
        (''default'', Some Ellipsis), (''default_factory'', Some Undefined),
        (''alias'', Some PNone), (''alias_priority'', Some Undefined),
        (''validation_alias'', Some PNone), (''serialization_alias'', Some PNone),
        (''title'', Some PNone), (''description'', Some PNone), (''gt'', Some PNone),
        (''ge'', Some PNone), (''lt'', Some PNone), (''le'', Some PNone),
        (''min_length'', Some PNone), (''max_length'', Some PNone),
        (''pattern'', Some PNone), (''regex'', Some PNone), (''discriminator'', Some PNone),
        (''strict'', Some Undefined), (''multiple_of'', Some Undefined),
        (''allow_inf_nan'', Some Undefined), (''max_digits'', Some Undefined),
        (''decimal_places'', Some Undefined), (''examples'', Some PNone),
        (''example'', Some Undefined), (''openapi_examples'', Some PNone),
        (''deprecated'', Some PNone), (''include_in_schema'', Some (PBool True)),
        (''json_schema_extra'', Some PNone)],
      var_keyword = True\<rparr>"

definition approach3_Path_keywords :: "string list" where
  "approach3_Path_keywords =
     [
      ''default'', ''default_factory'', ''alias'', ''alias_priority'', ''validation_alias'',
      ''serialization_alias'', ''title'', ''description'', ''gt'', ''ge'', ''lt'', ''le'',
      ''min_length'', ''max_length'', ''pattern'', ''regex'', ''discriminator'', ''strict'',
      ''multiple_of'', ''allow_inf_nan'', ''max_digits'', ''decimal_places'', ''example'',
      ''examples'', ''openapi_examples'', ''deprecated'', ''include_in_schema'',
      ''json_schema_extra'']"

definition approach3_Query_sig :: signature where
  "approach3_Query_sig =
     \<lparr>positional = [''default''],
      params =
       [
        (''default'', Some Undefined), (''default_factory'', Some Undefined),
        (''alias'', Some PNone), (''alias_priority'', Some Undefined),
        (''validation_alias'', Some PNone), (''serialization_alias'', Some PNone),
        (''title'', Some PNone), (''description'', Some PNone), (''gt'', Some PNone),
        (''ge'', Some PNone), (''lt'', Some PNone), (''le'', Some PNone),
        (''min_length'', Some PNone), (''max_length'', Some PNone),
        (''pattern'', Some PNone), (''regex'', Some PNone), (''discriminator'', Some PNone),
        (''strict'', Some Undefined), (''multiple_of'', Some Undefined),
        (''allow_inf_nan'', Some Undefined), (''max_digits'', Some Undefined),
        (''decimal_places'', Some Undefined), (''examples'', Some PNone),
        (''example'', Some Undefined), (''openapi_examples'', Some PNone),
        (''deprecated'', Some PNone), (''include_in_schema'', Some (PBool True)),
        (''json_schema_extra'', Some PNone)],
      var_keyword = True\<rparr>"

definition approach3_Query_keywords :: "string list" where
  "approach3_Query_keywords =
     [
      ''default'', ''default_factory'', ''alias'', ''alias_priority'', ''validation_alias'',
      ''serialization_alias'', ''title'', ''description'', ''gt'', ''ge'', ''lt'', ''le'',
      ''min_length'', ''max_length'', ''pattern'', ''regex'', ''discriminator'', ''strict'',
      ''multiple_of'', ''allow_inf_nan'', ''max_digits'', ''decimal_places'', ''example'',
      ''examples'', ''openapi_examples'', ''deprecated'', ''include_in_schema'',
      ''json_schema_extra'']"

definition approach3_Body_sig :: signature where
  "approach3_Body_sig =
     \<lparr>positional = [''default''],
      params =
       [
        (''default'', Some Undefined), (''default_factory'', Some Undefined),
        (''embed'', Some PNone), (''media_type'', Some (PStr ''application/json'')),
        (''alias'', Some PNone), (''alias_priority'', Some Undefined),
        (''validation_alias'', Some PNone), (''serialization_alias'', Some PNone),
        (''title'', Some PNone), (''description'', Some PNone), (''gt'', Some PNone),
        (''ge'', Some PNone), (''lt'', Some PNone), (''le'', Some PNone),
        (''min_length'', Some PNone), (''max_length'', Some PNone),
        (''pattern'', Some PNone), (''regex'', Some PNone), (''discriminator'', Some PNone),
        (''strict'', Some Undefined), (''multiple_of'', Some Undefined),
        (''allow_inf_nan'', Some Undefined), (''max_digits'', Some Undefined),
        (''decimal_places'', Some Undefined), (''examples'', Some PNone),
        (''example'', Some Undefined), (''openapi_examples'', Some PNone),
        (''deprecated'', Some PNone), (''include_in_schema'', Some (PBool True)),
        (''json_schema_extra'', Some PNone)],
      var_keyword = True\<rparr>"

definition approach3_Body_keywords :: "string list" where
  "approach3_Body_keywords =
     [
      ''default'', ''default_factory'', ''alias'', ''alias_priority'', ''validation_alias'',
      ''serialization_alias'', ''title'', ''description'', ''gt'', ''ge'', ''lt'', ''le'',
      ''min_length'', ''max_length'', ''pattern'', ''regex'', ''discriminator'', ''strict'',
      ''multiple_of'', ''allow_inf_nan'', ''max_digits'', ''decimal_places'', ''example'',
      ''examples'', ''openapi_examples'', ''deprecated'', ''include_in_schema'',
      ''json_schema_extra'']"

definition build_param_kwargs :: "kwargs \<Rightarrow> error + kwargs" where
  "build_param_kwargs kw =
     then_do (bind build_param_kwargs_sig [] kw) (\<lambda>(env, extra).
     then_do (pass env build_param_kwargs_keys) (\<lambda>items.
     Inr (dict_of (items @ extra))))"

definition approach3_Path :: "pyval list \<Rightarrow> kwargs \<Rightarrow> error + descriptor" where
  "approach3_Path pos kw =
     then_do (bind approach3_Path_sig pos kw) (\<lambda>(env, extra).
     then_do (pass env approach3_Path_keywords) (\<lambda>explicit.
     then_do (build_param_kwargs (explicit @ extra)) (\<lambda>kwargs.
     params_call Path kwargs)))"

definition approach3_Query :: "pyval list \<Rightarrow> kwargs \<Rightarrow> error + descriptor" where
  "approach3_Query pos kw =
     then_do (bind approach3_Query_sig pos kw) (\<lambda>(env, extra).
     then_do (pass env approach3_Query_keywords) (\<lambda>explicit.
     then_do (build_param_kwargs (explicit @ extra)) (\<lambda>kwargs.
     params_call Query kwargs)))"

definition approach3_Body :: "pyval list \<Rightarrow> kwargs \<Rightarrow> error + descriptor" where
  "approach3_Body pos kw =
     then_do (bind approach3_Body_sig pos kw) (\<lambda>(env, extra).
     then_do (pass env approach3_Body_keywords) (\<lambda>explicit.
     then_do (build_param_kwargs (explicit @ extra)) (\<lambda>kwargs.
     then_do (pass env [''embed'', ''media_type'']) (\<lambda>own.
     params_call Body (own @ kwargs)))))"

section \<open>The field catalog read off the signatures\<close>

text \<open>
  The shared fields are the parameters that approach 1 types with a shared constant
  (\<^verbatim>\<open>_DefaultParam\<close> to \<^verbatim>\<open>_JsonSchemaExtraParam\<close>), in the order the constants are
  defined; approach 2 lists the same names in \<^verbatim>\<open>COMMON_PARAM_DOCS\<close>. The remaining
  named parameters are annotated in place and belong to one kind only.
\<close>

definition catalog_fields :: "string list" where
  "catalog_fields =
     [''default'', ''default_factory'', ''alias'', ''alias_priority'', ''validation_alias'',
      ''serialization_alias'', ''title'', ''description'', ''gt'', ''ge'', ''lt'', ''le'',
      ''min_length'', ''max_length'', ''pattern'', ''regex'', ''discriminator'', ''strict'',
      ''multiple_of'', ''allow_inf_nan'', ''max_digits'', ''decimal_places'', ''examples'',
      ''example'', ''openapi_examples'', ''deprecated'', ''include_in_schema'',
      ''json_schema_extra'']"

fun exclusive_fields :: "kind \<Rightarrow> string list" where
  "exclusive_fields Path = []"
| "exclusive_fields Query = []"
| "exclusive_fields Body = [''embed'', ''media_type'']"
| "exclusive_fields Header = [''convert_underscores'']"

definition schema_fields :: "kind \<Rightarrow> string list" where
  "schema_fields K = catalog_fields @ exclusive_fields K"

text \<open>
  The extra bag of a descriptor: the keyword arguments the class was given under names
  that are no field of its kind.
\<close>

definition extra_bag :: "descriptor \<Rightarrow> kwargs" where
  "extra_bag d = filter (\<lambda>(k, v). k \<notin> set (schema_fields (d_kind d))) (d_kwargs d)"

text \<open>The nine constructors with their signatures and the class they instantiate.\<close>

definition constructors ::
  "((pyval list \<Rightarrow> kwargs \<Rightarrow> error + descriptor) \<times> signature \<times> kind) list" where
  "constructors =
     [(approach1_Path, approach1_Path_sig, Path),
      (approach1_Query, approach1_Query_sig, Query),
      (approach1_Body, approach1_Body_sig, Body),
      (approach2_Path, approach2_Path_sig, Path),
      (approach2_Query, approach2_Query_sig, Query),
      (approach2_Header, approach2_Header_sig, Header),
      (approach3_Path, approach3_Path_sig, Path),
      (approach3_Query, approach3_Query_sig, Query),
      (approach3_Body, approach3_Body_sig, Body)]"

text \<open>
  Structural equality of two results: the same exception, or objects of the same class
  whose keyword dictionaries are equal as Python dictionaries (the same keys with the
  same values, whatever the insertion order).
\<close>

definition same_descriptor :: "error + descriptor \<Rightarrow> error + descriptor \<Rightarrow> bool" where
  "same_descriptor r1 r2 =
     (case r1 of
        Inl e1 \<Rightarrow> (case r2 of Inl e2 \<Rightarrow> e1 = e2 | Inr d2 \<Rightarrow> False)
      | Inr d1 \<Rightarrow>
         (case r2 of
            Inl e2 \<Rightarrow> False
          | Inr d2 \<Rightarrow> d_kind d1 = d_kind d2 \<and> map_of (d_kwargs d1) = map_of (d_kwargs d2)))"

section \<open>Materialization\<close>

text \<open>
  Modelled from the spec: the resolved schema of a kind (spec 3 and 4.2). The classes of
  \<^verbatim>\<open>fastapi.params\<close> that hold the fields of each kind are not among the prototype
  sources. The schema is composed as the spec says, shared fields first and the
  exclusive fields after them, from the defaults the signatures give: the shared defaults
  are those of \<^verbatim>\<open>Query\<close>, \<^verbatim>\<open>Path\<close> overrides \<^verbatim>\<open>default\<close> with the required
  sentinel \<^verbatim>\<open>...\<close>, \<^verbatim>\<open>Body\<close> and \<^verbatim>\<open>Header\<close> add their own fields.
\<close>

definition shared_defaults :: kwargs where
  "shared_defaults =
     concat (map (\<lambda>(n, d). case d of Some v \<Rightarrow> [(n, v)] | None \<Rightarrow> []) (params approach1_Query_sig))"

fun overrides :: "kind \<Rightarrow> kwargs" where
  "overrides Path = [(''default'', Ellipsis)]"
| "overrides Query = []"
| "overrides Body = []"
| "overrides Header = []"

fun exclusive_defaults :: "kind \<Rightarrow> kwargs" where
  "exclusive_defaults Path = []"
| "exclusive_defaults Query = []"
| "exclusive_defaults Body = [(''embed'', PNone), (''media_type'', PStr ''application/json'')]"
| "exclusive_defaults Header = [(''convert_underscores'', PBool True)]"

definition resolved_schema :: "kind \<Rightarrow> kwargs" where
  "resolved_schema K =
     map (\<lambda>(n, d). (n, case map_of (overrides K) n of Some v \<Rightarrow> v | None \<Rightarrow> d)) shared_defaults
       @ exclusive_defaults K"

text \<open>
  Modelled from the spec: whether a kind's schema permits passthrough of unknown names
  (spec 4.3, "mirroring the deprecated catch-all in the source"). It is read off the
  catch-all of the kind's signature.
\<close>

fun permits_passthrough :: "kind \<Rightarrow> bool" where
  "permits_passthrough Path = var_keyword approach1_Path_sig"
| "permits_passthrough Query = var_keyword approach1_Query_sig"
| "permits_passthrough Body = var_keyword approach1_Body_sig"
| "permits_passthrough Header = var_keyword approach2_Header_sig"

text \<open>
  Modelled from the spec: the deprecated fields with their replacements (spec 3,
  \<open>deprecated\<close> with a replacement id). The signatures mark \<^verbatim>\<open>regex\<close> ("use
  \<^verbatim>\<open>pattern\<close> instead") and \<^verbatim>\<open>example\<close> ("Use examples instead") as deprecated.
\<close>

definition deprecated_fields :: "(string \<times> string) list" where
  "deprecated_fields = [(''regex'', ''pattern''), (''example'', ''examples'')]"

text \<open>
  Modelled from the spec: the constraints of step 2 of the Descriptor Validator (spec
  4.4). The descriptor carries the constraints in its constraint fields and the value
  they constrain in \<^verbatim>\<open>default\<close>. A range or multiple-of constraint is checked when both
  the value and the bound are integers, a length constraint when the value is a string;
  pattern and discriminator membership are not checked, since neither the spec nor the
  source says how a pattern matches. The result lists the violated constraints in the
  order of the catalog.
\<close>

fun satisfies :: "string \<Rightarrow> int \<Rightarrow> int \<Rightarrow> bool" where
  "satisfies c x b =
     (if c = ''gt'' then b < x
      else if c = ''ge'' then b \<le> x
      else if c = ''lt'' then x < b
      else if c = ''le'' then x \<le> b
      else if c = ''multiple_of'' then b dvd x
      else if c = ''min_length'' then b \<le> x
      else if c = ''max_length'' then x \<le> b
      else True)"

definition violated :: "kwargs \<Rightarrow> string list" where
  "violated vals =
     (case map_of vals ''default'' of
        Some (PInt x) \<Rightarrow>
          filter (\<lambda>c. case map_of vals c of Some (PInt b) \<Rightarrow> \<not> satisfies c x b | _ \<Rightarrow> False)
            [''gt'', ''ge'', ''lt'', ''le'', ''multiple_of'']
      | Some (PStr s) \<Rightarrow>
          filter (\<lambda>c. case map_of vals c of Some (PInt b) \<Rightarrow> \<not> satisfies c (int (length s)) b | _ \<Rightarrow> False)
            [''min_length'', ''max_length'']
      | _ \<Rightarrow> [])"

text \<open>
  Modelled from the spec: \<open>materialize\<close>, the Descriptor Validator of spec 4.4, which
  stands for what the absent class does with its keyword arguments. Unknown names go to
  the extra bag when the schema permits passthrough and fail with
  \<^verbatim>\<open>UnknownFieldError\<close> otherwise (spec 4.3); every field takes the supplied value or
  the schema's default. Then, in the order of the spec: (1) a field whose schema default
  is the required sentinel must have a non-sentinel value; (2) the first violated
  constraint fails, naming the field and the constraint; (3) a deprecated field and its
  replacement must not both differ from their defaults; (4) every deprecated field that
  differs from its default is recorded in the list of deprecation notices, which is
  returned with the descriptor.
\<close>

record parameter_descriptor =
  pd_kind :: kind
  pd_fields :: kwargs
  pd_extra :: kwargs

definition supplied :: "kwargs \<Rightarrow> string \<Rightarrow> pyval \<Rightarrow> pyval" where
  "supplied values n d = (case map_of values n of Some v \<Rightarrow> v | None \<Rightarrow> d)"

definition field_values :: "kind \<Rightarrow> kwargs \<Rightarrow> kwargs" where
  "field_values K values = map (\<lambda>(n, d). (n, supplied values n d)) (resolved_schema K)"

definition materialize :: "kind \<Rightarrow> kwargs \<Rightarrow> error + parameter_descriptor \<times> string list" where
  "materialize K values =
     (let schema = resolved_schema K;
          unknown = filter (\<lambda>(k, v). k \<notin> set (map fst schema)) values;
          vals = field_values K values;
          changed = (\<lambda>n. map_of vals n \<noteq> map_of schema n)
      in case (if permits_passthrough K then [] else unknown) of
           (k, v) # rest \<Rightarrow> Inl (UnknownFieldError k)
         | [] \<Rightarrow>
        (case filter (\<lambda>(n, d). d = Ellipsis \<and> map_of vals n = Some Ellipsis) schema of
           (n, d) # rest \<Rightarrow> Inl (MissingRequiredFieldError n)
         | [] \<Rightarrow>
        (case violated vals of
           c # rest \<Rightarrow> Inl (ConstraintViolationError ''default'' c)
         | [] \<Rightarrow>
        (case filter (\<lambda>(old, new). changed old \<and> changed new) deprecated_fields of
           (old, new) # rest \<Rightarrow> Inl (ConflictingFieldError old new)
         | [] \<Rightarrow>
           Inr (\<lparr>pd_kind = K, pd_fields = vals, pd_extra = unknown\<rparr>,
                filter changed (map fst deprecated_fields))))))"

text \<open>A constructor call followed by the materialization of what it hands to the class.\<close>

definition materialized ::
  "error + descriptor \<Rightarrow> error + parameter_descriptor \<times> string list" where
  "materialized r = then_do r (\<lambda>d. materialize (d_kind d) (d_kwargs d))"

section \<open>Normal form of a constructor call\<close>

text \<open>
  Auxiliary definitions for the proofs: the value a parameter is bound to, the local
  environment of a call that binds, and the result every constructor is shown to
  compute. A signature is open when it has the catch-all, distinct parameter names and
  a default for every parameter.
\<close>

definition arg_of :: "signature \<Rightarrow> kwargs \<Rightarrow> string \<Rightarrow> pyval" where
  "arg_of sg given n =
     (case map_of given n of
        Some v \<Rightarrow> v
      | None \<Rightarrow> (case map_of (params sg) n of Some (Some v) \<Rightarrow> v | _ \<Rightarrow> Undefined))"

definition env_of :: "signature \<Rightarrow> kwargs \<Rightarrow> kwargs" where
  "env_of sg given =
     map (\<lambda>(n, d). (n, case map_of given n of Some v \<Rightarrow> v | None \<Rightarrow> (case d of Some v \<Rightarrow> v | None \<Rightarrow> Undefined)))
       (params sg)"

definition open_sig :: "signature \<Rightarrow> bool" where
  "open_sig sg = (var_keyword sg \<and> distinct (map fst (params sg)) \<and> None \<notin> snd ` set (params sg))"

definition construct ::
  "signature \<Rightarrow> string list \<Rightarrow> kind \<Rightarrow> pyval list \<Rightarrow> kwargs \<Rightarrow> error + descriptor" where
  "construct sg order K pos kw =
     (case first_dup (map fst (zip (positional sg) pos @ kw)) of
        Some k \<Rightarrow> Inl (TypeError (MultipleValues k))
      | None \<Rightarrow>
         if length (positional sg) < length pos then Inl (TypeError TooManyPositional)
         else
           Inr \<lparr>d_kind = K,
                d_kwargs = map (\<lambda>n. (n, arg_of sg (zip (positional sg) pos @ kw) n)) order
                  @ filter (\<lambda>(k, v). k \<notin> set (map fst (params sg))) kw\<rparr>)"

section \<open>Binding, forwarding and the normal form\<close>

lemma first_dup_None: "first_dup ks = None \<longleftrightarrow> distinct ks"
  by (induction ks) auto

lemma first_dup_Some_mem: "first_dup ks = Some k \<Longrightarrow> k \<in> set ks"
  by (induction ks) (auto split: if_splits)

lemma collect_bound:
  assumes "\<And>n. (n, None) \<in> set ps \<Longrightarrow> n \<in> fst ` set given"
  shows "collect (map (\<lambda>(n, d). (n, case map_of given n of Some v \<Rightarrow> Some v | None \<Rightarrow> d)) ps)
         = Inr (map (\<lambda>(n, d). (n, case map_of given n of Some v \<Rightarrow> v | None \<Rightarrow> (case d of Some v \<Rightarrow> v | None \<Rightarrow> Undefined))) ps)"
  using assms
proof (induction ps)
  case Nil
  then show ?case by simp
next
  case (Cons p ps)
  obtain n d where p: "p = (n, d)" by (cases p)
  have IH: "collect (map (\<lambda>(n, d). (n, case map_of given n of Some v \<Rightarrow> Some v | None \<Rightarrow> d)) ps)
         = Inr (map (\<lambda>(n, d). (n, case map_of given n of Some v \<Rightarrow> v | None \<Rightarrow> (case d of Some v \<Rightarrow> v | None \<Rightarrow> Undefined))) ps)"
    using Cons by auto
  show ?case
  proof (cases "map_of given n")
    case None
    then have "n \<notin> fst ` set given" by (simp add: map_of_eq_None_iff)
    then have "d \<noteq> None" using Cons.prems[of n] p by auto
    then obtain v where "d = Some v" by auto
    then show ?thesis using None p IH by simp
  next
    case (Some v)
    then show ?thesis using p IH by simp
  qed
qed

lemma pass_ok:
  "set ns \<subseteq> fst ` set env \<Longrightarrow> pass env ns = Inr (map (\<lambda>n. (n, the (map_of env n))) ns)"
proof (induction ns)
  case Nil
  then show ?case by simp
next
  case (Cons n ns)
  then have "n \<in> fst ` set env" by simp
  then obtain v where "map_of env n = Some v"
    by (metis map_of_eq_None_iff not_Some_eq)
  then show ?case using Cons by simp
qed


lemma bind_open:
  assumes "var_keyword sg" "\<And>n. (n, None) \<in> set (params sg) \<Longrightarrow> n \<in> fst ` set (zip (positional sg) pos @ kw)"
  shows "bind sg pos kw =
     (case first_dup (map fst (zip (positional sg) pos @ kw)) of
        Some k \<Rightarrow> Inl (TypeError (MultipleValues k))
      | None \<Rightarrow>
         if length (positional sg) < length pos then Inl (TypeError TooManyPositional)
         else Inr (env_of sg (zip (positional sg) pos @ kw),
                   filter (\<lambda>(k, v). k \<notin> set (map fst (params sg))) kw))"
  using assms(1) collect_bound[of "params sg" "zip (positional sg) pos @ kw", OF assms(2)]
  by (simp add: bind_def env_of_def then_do_def Let_def split: option.splits)

lemma map_of_bound:
  "map_of (map (\<lambda>(n, d). (n, f n d)) ps) n = map_option (f n) (map_of ps n)"
  by (induction ps) auto

lemma map_of_env_of:
  "map_of (env_of sg given) n =
     map_option (\<lambda>d. case map_of given n of Some v \<Rightarrow> v | None \<Rightarrow> (case d of Some v \<Rightarrow> v | None \<Rightarrow> Undefined))
       (map_of (params sg) n)"
  unfolding env_of_def by (rule map_of_bound)

lemma fst_env_of: "map fst (env_of sg given) = map fst (params sg)"
  by (simp add: env_of_def case_prod_unfold comp_def)

lemma the_env_of:
  assumes "n \<in> set (map fst (params sg))" "None \<notin> snd ` set (params sg)"
  shows "the (map_of (env_of sg given) n) = arg_of sg given n"
proof -
  obtain d where d: "map_of (params sg) n = Some d"
    using assms(1) by (metis map_of_eq_None_iff not_Some_eq set_map)
  then have "(n, d) \<in> set (params sg)" by (rule map_of_SomeD)
  then have "d \<noteq> None" using assms(2) by force
  then show ?thesis using d by (auto simp: map_of_env_of arg_of_def split: option.splits)
qed

lemma distinct_unknown:
  assumes "distinct (map fst (xs @ kw))" "set order \<subseteq> set names" "distinct order"
  shows "distinct (order @ map fst (filter (\<lambda>(k, v). k \<notin> set names) kw))"
proof -
  have "distinct (map fst kw)" using assms(1) by simp
  then have "distinct (map fst (filter (\<lambda>(k, v). k \<notin> set names) kw))"
    by (rule distinct_map_filter)
  moreover have "set order \<inter> set (map fst (filter (\<lambda>(k, v). k \<notin> set names) kw)) = {}"
    using assms(2) by auto
  ultimately show ?thesis using assms(3) by simp
qed

lemma construct_nf:
  assumes "open_sig sg" "set order \<subseteq> set (map fst (params sg))" "distinct order"
  shows "then_do (bind sg pos kw) (\<lambda>(env, extra).
           then_do (pass env order) (\<lambda>explicit. params_call K (explicit @ extra)))
         = construct sg order K pos kw"
proof -
  let ?given = "zip (positional sg) pos @ kw"
  let ?extra = "filter (\<lambda>(k, v). k \<notin> set (map fst (params sg))) kw"
  have vk: "var_keyword sg" and nn: "None \<notin> snd ` set (params sg)"
    using assms(1) by (auto simp: open_sig_def)
  have b: "bind sg pos kw =
     (case first_dup (map fst ?given) of
        Some k \<Rightarrow> Inl (TypeError (MultipleValues k))
      | None \<Rightarrow>
         if length (positional sg) < length pos then Inl (TypeError TooManyPositional)
         else Inr (env_of sg ?given, ?extra))"
    using nn by (intro bind_open vk) force
  have p: "pass (env_of sg ?given) order = Inr (map (\<lambda>n. (n, arg_of sg ?given n)) order)"
  proof -
    have "set order \<subseteq> fst ` set (env_of sg ?given)"
      using assms(2) fst_env_of[of sg ?given] by (metis set_map)
    then have "pass (env_of sg ?given) order
        = Inr (map (\<lambda>n. (n, the (map_of (env_of sg ?given) n))) order)" by (rule pass_ok)
    moreover have "map (\<lambda>n. (n, the (map_of (env_of sg ?given) n))) order
        = map (\<lambda>n. (n, arg_of sg ?given n)) order"
      using assms(2) nn by (intro map_cong refl) (simp add: the_env_of subset_iff)
    ultimately show ?thesis by simp
  qed
  show ?thesis
  proof (cases "first_dup (map fst ?given)")
    case (Some k)
    then show ?thesis by (simp add: b construct_def then_do_def)
  next
    case None
    show ?thesis
    proof (cases "length (positional sg) < length pos")
      case True
      then show ?thesis using None by (simp add: b construct_def then_do_def)
    next
      case False
      from None have "distinct (map fst ?given)" by (simp add: first_dup_None)
      then have "distinct (order @ map fst ?extra)"
        using assms(2,3) by (rule distinct_unknown)
      then have "first_dup (map fst (map (\<lambda>n. (n, arg_of sg ?given n)) order @ ?extra)) = None"
        by (simp add: first_dup_None comp_def)
      then show ?thesis using False None p
        by (simp add: b construct_def then_do_def params_call_def)
    qed
  qed
qed


lemma forward_common_params_eq:
  "forward_common_params kw =
     (case first_dup (map fst kw) of Some k \<Rightarrow> Inl (TypeError (MultipleValues k)) | None \<Rightarrow> Inr kw)"
  by (simp add: forward_common_params_def forward_common_params_sig_def bind_def then_do_def
      split: option.splits)

lemma construct_nf2:
  assumes "open_sig sg" "set order \<subseteq> set (map fst (params sg))" "distinct order"
  shows "then_do (bind sg pos kw) (\<lambda>(env, common_params).
           then_do (forward_common_params common_params) (\<lambda>processed_params.
           then_do (pass env order) (\<lambda>explicit. params_call K (explicit @ processed_params))))
         = construct sg order K pos kw"
proof -
  let ?given = "zip (positional sg) pos @ kw"
  let ?extra = "filter (\<lambda>(k, v). k \<notin> set (map fst (params sg))) kw"
  have "then_do (bind sg pos kw) (\<lambda>(env, common_params).
           then_do (forward_common_params common_params) (\<lambda>processed_params.
           then_do (pass env order) (\<lambda>explicit. params_call K (explicit @ processed_params))))
      = then_do (bind sg pos kw) (\<lambda>(env, extra).
           then_do (pass env order) (\<lambda>explicit. params_call K (explicit @ extra)))"
  proof (cases "bind sg pos kw")
    case (Inl e)
    then show ?thesis by (simp add: then_do_def)
  next
    case (Inr r)
    obtain env extra where r: "r = (env, extra)" by (cases r)
    have vk: "var_keyword sg" and nn: "None \<notin> snd ` set (params sg)"
      using assms(1) by (auto simp: open_sig_def)
    have b: "bind sg pos kw =
       (case first_dup (map fst ?given) of
          Some k \<Rightarrow> Inl (TypeError (MultipleValues k))
        | None \<Rightarrow>
           if length (positional sg) < length pos then Inl (TypeError TooManyPositional)
           else Inr (env_of sg ?given, ?extra))"
      using nn by (intro bind_open vk) force
    from Inr r b have d: "first_dup (map fst ?given) = None" and e: "extra = ?extra"
      by (auto split: if_splits option.splits)
    from d have "distinct (map fst kw)" by (simp add: first_dup_None)
    then have "distinct (map fst ?extra)" by (rule distinct_map_filter)
    then have "first_dup (map fst extra) = None" unfolding e by (simp only: first_dup_None)
    then have "forward_common_params extra = Inr extra"
      by (simp add: forward_common_params_eq)
    then show ?thesis using Inr r by (simp add: then_do_def)
  qed
  then show ?thesis using construct_nf[OF assms] by simp
qed

lemma dict_set_fresh: "k \<notin> fst ` set d \<Longrightarrow> dict_set d (k, v) = d @ [(k, v)]"
  by (induction d) auto

lemma foldl_dict_set: "distinct (map fst (acc @ xs)) \<Longrightarrow> foldl dict_set acc xs = acc @ xs"
proof (induction xs arbitrary: acc)
  case Nil
  then show ?case by simp
next
  case (Cons x xs)
  obtain k v where x: "x = (k, v)" by (cases x)
  have "k \<notin> fst ` set acc" using Cons.prems x by auto
  then have "dict_set acc x = acc @ [x]" using x by (simp add: dict_set_fresh)
  moreover have "distinct (map fst ((acc @ [x]) @ xs))" using Cons.prems by simp
  ultimately show ?case using Cons.IH[of "acc @ [x]"] by simp
qed

lemma dict_of_distinct: "distinct (map fst xs) \<Longrightarrow> dict_of xs = xs"
  using foldl_dict_set[of "[]" xs] by (simp add: dict_of_def)

lemma build_param_kwargs_names:
  "map fst (params build_param_kwargs_sig) = positional build_param_kwargs_sig"
  "set build_param_kwargs_keys = set (positional build_param_kwargs_sig)"
  "distinct build_param_kwargs_keys"
  "var_keyword build_param_kwargs_sig"
  "snd ` set (params build_param_kwargs_sig) = {None}"
  by (simp_all add: build_param_kwargs_sig_def build_param_kwargs_keys_def insert_commute)


lemma pass_env_of:
  assumes "None \<notin> snd ` set (params sg)" "set order \<subseteq> set (map fst (params sg))"
  shows "pass (env_of sg given) order = Inr (map (\<lambda>n. (n, arg_of sg given n)) order)"
proof -
  have "set order \<subseteq> fst ` set (env_of sg given)"
    using assms(2) fst_env_of[of sg given] by (metis set_map)
  then have "pass (env_of sg given) order
      = Inr (map (\<lambda>n. (n, the (map_of (env_of sg given) n))) order)" by (rule pass_ok)
  moreover have "map (\<lambda>n. (n, the (map_of (env_of sg given) n))) order
      = map (\<lambda>n. (n, arg_of sg given n)) order"
    using assms by (intro map_cong refl) (simp add: the_env_of subset_iff)
  ultimately show ?thesis by simp
qed

lemma bind_construct:
  assumes "open_sig sg"
  obtains (fail) e where "bind sg pos kw = Inl e" "\<And>order K. construct sg order K pos kw = Inl e"
  | (ok) "bind sg pos kw = Inr (env_of sg (zip (positional sg) pos @ kw),
                              filter (\<lambda>(k, v). k \<notin> set (map fst (params sg))) kw)"
      "distinct (map fst kw)"
      "\<And>order K. construct sg order K pos kw =
         Inr \<lparr>d_kind = K,
              d_kwargs = map (\<lambda>n. (n, arg_of sg (zip (positional sg) pos @ kw) n)) order
                @ filter (\<lambda>(k, v). k \<notin> set (map fst (params sg))) kw\<rparr>"
proof -
  let ?given = "zip (positional sg) pos @ kw"
  let ?extra = "filter (\<lambda>(k, v). k \<notin> set (map fst (params sg))) kw"
  have vk: "var_keyword sg" and nn: "None \<notin> snd ` set (params sg)"
    using assms(1) by (auto simp: open_sig_def)
  have b: "bind sg pos kw =
     (case first_dup (map fst ?given) of
        Some k \<Rightarrow> Inl (TypeError (MultipleValues k))
      | None \<Rightarrow>
         if length (positional sg) < length pos then Inl (TypeError TooManyPositional)
         else Inr (env_of sg ?given, ?extra))"
    using nn by (intro bind_open vk) force
  show thesis
  proof (cases "first_dup (map fst ?given)")
    case (Some k)
    then show ?thesis using b
      by (intro fail[of "TypeError (MultipleValues k)"]) (simp_all add: construct_def)
  next
    case None
    show ?thesis
    proof (cases "length (positional sg) < length pos")
      case True
      then show ?thesis using None b
        by (intro fail[of "TypeError TooManyPositional"]) (simp_all add: construct_def)
    next
      case False
      from None have "distinct (map fst ?given)" by (simp only: first_dup_None)
      then have "distinct (map fst kw)" by simp
      then show ?thesis using False None b by (intro ok) (simp_all add: construct_def)
    qed
  qed
qed

lemma map_of_roundtrip:
  assumes "distinct (map fst xs)"
  shows "map (\<lambda>n. (n, the (map_of xs n))) (map fst xs) = xs"
proof -
  have "map_of xs (fst x) = Some (snd x)" if "x \<in> set xs" for x
    using assms that by (intro map_of_is_SomeI) simp_all
  then have "map (\<lambda>x. (fst x, the (map_of xs (fst x)))) xs = map (\<lambda>x. x) xs"
    by (intro map_cong refl) simp
  then show ?thesis by (simp add: comp_def)
qed

lemma build_param_kwargs_ok:
  assumes "map fst explicit = build_param_kwargs_keys" "distinct (map fst extra)"
    "set (map fst extra) \<inter> set build_param_kwargs_keys = {}"
  shows "build_param_kwargs (explicit @ extra) = Inr (explicit @ extra)"
proof -
  let ?sg = build_param_kwargs_sig
  let ?kw = "explicit @ extra"
  note nm = build_param_kwargs_names
  have dk: "distinct (map fst ?kw)"
    using assms nm(3) by auto
  have names: "set (map fst (params ?sg)) = set (map fst explicit)"
    using assms(1) nm(1,2) by simp
  have ex: "filter (\<lambda>(k, v). k \<notin> set (map fst (params ?sg))) ?kw = extra"
  proof -
    have "filter (\<lambda>(k, v). k \<notin> set (map fst (params ?sg))) explicit = []"
      unfolding names by (force simp: filter_empty_conv)
    moreover have "filter (\<lambda>(k, v). k \<notin> set (map fst (params ?sg))) extra = extra"
      unfolding names using assms(1,3) by (auto simp: filter_id_conv)
    ultimately show ?thesis by simp
  qed
  have b: "bind ?sg [] ?kw = Inr (env_of ?sg ?kw, extra)"
  proof -
    have "\<And>n. (n, None) \<in> set (params ?sg) \<Longrightarrow> n \<in> fst ` set (zip (positional ?sg) [] @ ?kw)"
      using names by force
    from bind_open[OF nm(4) this] show ?thesis
      using dk ex by (simp add: first_dup_None[THEN iffD2])
  qed
  have v: "the (map_of (env_of ?sg ?kw) n) = the (map_of explicit n)"
    if "n \<in> set build_param_kwargs_keys" for n
  proof -
    have "n \<in> fst ` set explicit" using that assms(1) by (metis set_map)
    then obtain x where x: "map_of explicit n = Some x"
      by (metis map_of_eq_None_iff not_Some_eq)
    have "n \<in> fst ` set (params ?sg)" using that nm(1,2) by (metis set_map)
    then obtain d where "map_of (params ?sg) n = Some d"
      by (metis map_of_eq_None_iff not_Some_eq)
    then show ?thesis using x by (simp add: map_of_env_of)
  qed
  have "set build_param_kwargs_keys \<subseteq> fst ` set (env_of ?sg ?kw)"
    using fst_env_of[of ?sg ?kw] nm(1,2) by (metis set_map subset_refl)
  then have "pass (env_of ?sg ?kw) build_param_kwargs_keys
      = Inr (map (\<lambda>n. (n, the (map_of (env_of ?sg ?kw) n))) build_param_kwargs_keys)"
    by (rule pass_ok)
  also have "map (\<lambda>n. (n, the (map_of (env_of ?sg ?kw) n))) build_param_kwargs_keys
      = map (\<lambda>n. (n, the (map_of explicit n))) (map fst explicit)"
    unfolding assms(1) using v by (intro map_cong refl) simp
  also have "\<dots> = explicit"
    using assms(1) nm(3) by (intro map_of_roundtrip) simp
  finally have p: "pass (env_of ?sg ?kw) build_param_kwargs_keys = Inr explicit" .
  show ?thesis
    using b p dk by (simp add: build_param_kwargs_def then_do_def dict_of_distinct)
qed

lemma construct_nf3:
  assumes "open_sig sg" "set build_param_kwargs_keys \<subseteq> set (map fst (params sg))"
    "set own \<subseteq> set (map fst (params sg))" "distinct (own @ build_param_kwargs_keys)"
  shows "then_do (bind sg pos kw) (\<lambda>(env, extra).
           then_do (pass env build_param_kwargs_keys) (\<lambda>explicit.
           then_do (build_param_kwargs (explicit @ extra)) (\<lambda>kwargs.
           then_do (pass env own) (\<lambda>own. params_call K (own @ kwargs)))))
         = construct sg (own @ build_param_kwargs_keys) K pos kw"
  using assms(1)
proof (cases rule: bind_construct[where pos = pos and kw = kw])
  case (fail e)
  then show ?thesis by (simp add: then_do_def)
next
  case ok
  let ?given = "zip (positional sg) pos @ kw"
  let ?extra = "filter (\<lambda>(k, v). k \<notin> set (map fst (params sg))) kw"
  let ?explicit = "map (\<lambda>n. (n, arg_of sg ?given n)) build_param_kwargs_keys"
  let ?own = "map (\<lambda>n. (n, arg_of sg ?given n)) own"
  have nn: "None \<notin> snd ` set (params sg)" using assms(1) by (simp add: open_sig_def)
  have p1: "pass (env_of sg ?given) build_param_kwargs_keys = Inr ?explicit"
    using nn assms(2) by (rule pass_env_of)
  have p2: "pass (env_of sg ?given) own = Inr ?own"
    using nn assms(3) by (rule pass_env_of)
  have dx: "distinct (map fst ?extra)" using ok(2) by (rule distinct_map_filter)
  have dj: "set (map fst ?extra) \<inter> set build_param_kwargs_keys = {}"
    using assms(2) by auto
  have b: "build_param_kwargs (?explicit @ ?extra) = Inr (?explicit @ ?extra)"
    using dx dj by (intro build_param_kwargs_ok) (simp_all add: comp_def)
  have "set (own @ build_param_kwargs_keys) \<subseteq> set (map fst (params sg))"
    using assms(2,3) by simp
  then have "distinct ((own @ build_param_kwargs_keys) @ map fst ?extra)"
    using distinct_unknown[of "[]" kw "own @ build_param_kwargs_keys" "map fst (params sg)"]
      ok(2) assms(4) by simp
  then have "first_dup (map fst (?own @ ?explicit @ ?extra)) = None"
    by (simp add: first_dup_None comp_def)
  then show ?thesis
    using ok(1,3) p1 p2 b by (simp add: then_do_def params_call_def)
qed


lemma construct_nf3_plain:
  assumes "open_sig sg" "set build_param_kwargs_keys \<subseteq> set (map fst (params sg))"
  shows "then_do (bind sg pos kw) (\<lambda>(env, extra).
           then_do (pass env build_param_kwargs_keys) (\<lambda>explicit.
           then_do (build_param_kwargs (explicit @ extra)) (\<lambda>kwargs. params_call K kwargs)))
         = construct sg build_param_kwargs_keys K pos kw"
  using construct_nf3[OF assms, of "[]" pos kw K] build_param_kwargs_names(3)
  by (simp add: then_do_def)

lemma open_sigs:
  "open_sig approach1_Path_sig" "open_sig approach1_Query_sig" "open_sig approach1_Body_sig"
  "open_sig approach2_Path_sig" "open_sig approach2_Query_sig" "open_sig approach2_Header_sig"
  by (simp_all add: open_sig_def approach1_Path_sig_def approach1_Query_sig_def
      approach1_Body_sig_def approach2_Path_sig_def approach2_Query_sig_def approach2_Header_sig_def)

lemma approach3_sigs:
  "approach3_Path_sig = approach1_Path_sig" "approach3_Query_sig = approach1_Query_sig"
  "approach3_Body_sig = approach1_Body_sig"
  by (simp_all add: approach3_Path_sig_def approach3_Query_sig_def approach3_Body_sig_def
      approach1_Path_sig_def approach1_Query_sig_def approach1_Body_sig_def)

lemma keyword_lists:
  "approach1_Path_keywords = build_param_kwargs_keys"
  "approach1_Query_keywords = build_param_kwargs_keys"
  "approach3_Path_keywords = build_param_kwargs_keys"
  "approach3_Query_keywords = build_param_kwargs_keys"
  "approach3_Body_keywords = build_param_kwargs_keys"
  by (simp_all add: approach1_Path_keywords_def approach1_Query_keywords_def
      approach3_Path_keywords_def approach3_Query_keywords_def approach3_Body_keywords_def
      build_param_kwargs_keys_def)

lemma sig_subsets:
  "set build_param_kwargs_keys \<subseteq> set (map fst (params approach1_Path_sig))"
  "set build_param_kwargs_keys \<subseteq> set (map fst (params approach1_Query_sig))"
  "set build_param_kwargs_keys \<subseteq> set (map fst (params approach1_Body_sig))"
  "set approach1_Body_keywords \<subseteq> set (map fst (params approach1_Body_sig))"
  "set [''embed'', ''media_type''] \<subseteq> set (map fst (params approach1_Body_sig))"
  "set [''default''] \<subseteq> set (map fst (params approach2_Path_sig))"
  "set [''default''] \<subseteq> set (map fst (params approach2_Query_sig))"
  "set [''default'', ''convert_underscores''] \<subseteq> set (map fst (params approach2_Header_sig))"
  by (simp_all add: approach1_Path_sig_def approach1_Query_sig_def approach1_Body_sig_def
      approach1_Body_keywords_def build_param_kwargs_keys_def approach2_Path_sig_def
      approach2_Query_sig_def approach2_Header_sig_def)

lemma key_distinct:
  "distinct build_param_kwargs_keys"
  "distinct approach1_Body_keywords"
  "distinct ([''embed'', ''media_type''] @ build_param_kwargs_keys)"
  "distinct [''default'']"
  "distinct [''default'', ''convert_underscores'']"
  by (simp_all add: approach1_Body_keywords_def build_param_kwargs_keys_def)

lemma approach1_nf:
  "approach1_Path pos kw = construct approach1_Path_sig build_param_kwargs_keys Path pos kw"
  "approach1_Query pos kw = construct approach1_Query_sig build_param_kwargs_keys Query pos kw"
  "approach1_Body pos kw = construct approach1_Body_sig approach1_Body_keywords Body pos kw"
  unfolding approach1_Path_def approach1_Query_def approach1_Body_def keyword_lists
  by (rule construct_nf open_sigs sig_subsets key_distinct)+

lemma approach2_nf:
  "approach2_Path pos kw = construct approach2_Path_sig [''default''] Path pos kw"
  "approach2_Query pos kw = construct approach2_Query_sig [''default''] Query pos kw"
  "approach2_Header pos kw
     = construct approach2_Header_sig [''default'', ''convert_underscores''] Header pos kw"
  unfolding approach2_Path_def approach2_Query_def approach2_Header_def
  by (rule construct_nf2 open_sigs sig_subsets key_distinct)+

lemma approach3_nf:
  "approach3_Path pos kw = construct approach1_Path_sig build_param_kwargs_keys Path pos kw"
  "approach3_Query pos kw = construct approach1_Query_sig build_param_kwargs_keys Query pos kw"
  "approach3_Body pos kw
     = construct approach1_Body_sig ([''embed'', ''media_type''] @ build_param_kwargs_keys) Body pos kw"
  unfolding approach3_Path_def approach3_Query_def approach3_Body_def keyword_lists approach3_sigs
  by (rule construct_nf3_plain construct_nf3 open_sigs sig_subsets key_distinct)+

section \<open>Approaches 1 and 3 agree\<close>

lemma construct_same:
  assumes "set o1 = set o2"
  shows "same_descriptor (construct sg o1 K pos kw) (construct sg o2 K pos kw)"
proof -
  have "map_of (map (\<lambda>n. (n, f n)) o1) = map_of (map (\<lambda>n. (n, f n)) o2)" for f :: "string \<Rightarrow> pyval"
    using assms by (simp add: map_of_map_restrict)
  then show ?thesis
    by (simp add: construct_def same_descriptor_def split: option.splits)
qed

lemma body_orders:
  "set approach1_Body_keywords = set ([''embed'', ''media_type''] @ build_param_kwargs_keys)"
  by (simp add: approach1_Body_keywords_def build_param_kwargs_keys_def insert_commute)

text \<open>
  C9. For Path, Query and Body the constructor of approach 1 and the constructor of
  approach 3 return the same result on every call: the same exception, or a descriptor
  of the same kind with the same value under every field name. For Path and Query the
  keyword arguments reach the class in the same order as well; approach 3's Body passes
  \<^verbatim>\<open>embed\<close> and \<^verbatim>\<open>media_type\<close> first, so there the keyword dictionaries are equal
  as dictionaries.
\<close>

theorem approach1_approach3_equal:
  "approach1_Path pos kw = approach3_Path pos kw
   \<and> approach1_Query pos kw = approach3_Query pos kw
   \<and> same_descriptor (approach1_Body pos kw) (approach3_Body pos kw)"
  by (simp add: approach1_nf approach3_nf construct_same body_orders)

section \<open>Forwarding in approach 2\<close>

text \<open>
  C10. \<^verbatim>\<open>_forward_common_params\<close> returns the keyword dictionary it is given, unchanged,
  and the constructors of approach 2 hand the common parameters to the class exactly as
  they received them, after \<^verbatim>\<open>default\<close> (and \<^verbatim>\<open>convert_underscores\<close>).
\<close>

theorem forward_common_params_identity:
  assumes "distinct (map fst kw)"
  shows "forward_common_params kw = Inr kw
   \<and> (''default'' \<notin> fst ` set kw \<longrightarrow>
        approach2_Path [d] kw = Inr \<lparr>d_kind = Path, d_kwargs = (''default'', d) # kw\<rparr>
      \<and> approach2_Query [d] kw = Inr \<lparr>d_kind = Query, d_kwargs = (''default'', d) # kw\<rparr>)
   \<and> (''default'' \<notin> fst ` set kw \<and> ''convert_underscores'' \<notin> fst ` set kw \<longrightarrow>
        approach2_Header [d] kw
          = Inr \<lparr>d_kind = Header,
                 d_kwargs = (''default'', d) # (''convert_underscores'', PBool True) # kw\<rparr>)"
proof -
  have 1: "forward_common_params kw = Inr kw"
    using assms by (simp add: forward_common_params_eq first_dup_None[THEN iffD2])
  have f1: "filter (\<lambda>(k, v). k \<noteq> ''default'') kw = kw" if "''default'' \<notin> fst ` set kw"
    using that by (force simp: filter_id_conv)
  have f2: "filter (\<lambda>(k, v). k \<noteq> ''default'' \<and> k \<noteq> ''convert_underscores'') kw = kw"
    if "''default'' \<notin> fst ` set kw" "''convert_underscores'' \<notin> fst ` set kw"
    using that by (force simp: filter_id_conv)
  have d: "first_dup (''default'' # map fst kw) = None" if "''default'' \<notin> fst ` set kw"
    using that assms by (simp add: first_dup_None[THEN iffD2])
  show ?thesis
    using 1 f1 f2 d
    by (simp add: approach2_nf construct_def arg_of_def approach2_Path_sig_def
        approach2_Query_sig_def approach2_Header_sig_def map_of_eq_None_iff[THEN iffD2])
qed

theorem forward_common_params_identity_witness:
  "forward_common_params [(''title'', PStr ''id''), (''gt'', PInt 0)]
     = Inr [(''title'', PStr ''id''), (''gt'', PInt 0)]
   \<and> approach2_Path [Ellipsis] [(''title'', PStr ''id''), (''gt'', PInt 0)]
     = Inr \<lparr>d_kind = Path,
            d_kwargs = [(''default'', Ellipsis), (''title'', PStr ''id''), (''gt'', PInt 0)]\<rparr>
   \<and> approach2_Query [PNone] [(''title'', PStr ''id''), (''gt'', PInt 0)]
     = Inr \<lparr>d_kind = Query,
            d_kwargs = [(''default'', PNone), (''title'', PStr ''id''), (''gt'', PInt 0)]\<rparr>
   \<and> approach2_Header [PNone] [(''title'', PStr ''id''), (''gt'', PInt 0)]
     = Inr \<lparr>d_kind = Header,
            d_kwargs = [(''default'', PNone), (''convert_underscores'', PBool True),
                        (''title'', PStr ''id''), (''gt'', PInt 0)]\<rparr>"
  using forward_common_params_identity [of "[(''title'', PStr ''id''), (''gt'', PInt 0)]" Ellipsis]
    forward_common_params_identity [of "[(''title'', PStr ''id''), (''gt'', PInt 0)]" PNone]
  by simp

section \<open>Field names\<close>

lemma sig_names:
  "map fst (params approach1_Path_sig) = catalog_fields"
  "map fst (params approach1_Query_sig) = catalog_fields"
  "map fst (params approach1_Body_sig)
     = take 2 catalog_fields @ exclusive_fields Body @ drop 2 catalog_fields"
  "map fst (params approach2_Path_sig) = [''default'']"
  "map fst (params approach2_Query_sig) = [''default'']"
  "map fst (params approach2_Header_sig) = [''default''] @ exclusive_fields Header"
  by (simp_all add: approach1_Path_sig_def approach1_Query_sig_def approach1_Body_sig_def
      approach2_Path_sig_def approach2_Query_sig_def approach2_Header_sig_def catalog_fields_def)

lemma distinct_schema_fields: "distinct (schema_fields K)"
  by (cases K) (simp_all add: schema_fields_def catalog_fields_def)

text \<open>
  C6. The parameter names of every constructor are pairwise distinct, and no field that
  belongs to one kind only (\<^verbatim>\<open>embed\<close>, \<^verbatim>\<open>media_type\<close>, \<^verbatim>\<open>convert_underscores\<close>)
  has the name of a shared field; the names a constructor declares are fields of its
  kind.
\<close>

theorem field_names_distinct:
  "distinct (map fst (params approach1_Path_sig))
   \<and> distinct (map fst (params approach1_Query_sig))
   \<and> distinct (map fst (params approach1_Body_sig))
   \<and> distinct (map fst (params approach2_Path_sig))
   \<and> distinct (map fst (params approach2_Query_sig))
   \<and> distinct (map fst (params approach2_Header_sig))
   \<and> distinct (map fst (params approach3_Path_sig))
   \<and> distinct (map fst (params approach3_Query_sig))
   \<and> distinct (map fst (params approach3_Body_sig))
   \<and> (\<forall>K. set (exclusive_fields K) \<inter> set catalog_fields = {})
   \<and> (\<forall>K. distinct (schema_fields K))
   \<and> set (map fst (params approach1_Body_sig)) = set (schema_fields Body)
   \<and> set (map fst (params approach3_Body_sig)) = set (schema_fields Body)
   \<and> set (map fst (params approach2_Header_sig)) \<subseteq> set (schema_fields Header)"
proof -
  have "set (exclusive_fields K) \<inter> set catalog_fields = {}" for K
    using distinct_schema_fields[of K] by (auto simp: schema_fields_def)
  moreover have "set (take 2 catalog_fields @ exclusive_fields Body @ drop 2 catalog_fields)
      = set (schema_fields Body)"
    by (simp add: schema_fields_def catalog_fields_def insert_commute)
  moreover have "set ([''default''] @ exclusive_fields Header) \<subseteq> set (schema_fields Header)"
    by (simp add: schema_fields_def catalog_fields_def)
  ultimately show ?thesis
    using open_sigs distinct_schema_fields
    by (simp add: open_sig_def approach3_sigs sig_names del: set_append set_map)
qed

text \<open>
  C7, as the source has it. Path and Query declare the shared fields in catalog order.
  Body declares \<^verbatim>\<open>embed\<close> and \<^verbatim>\<open>media_type\<close>, in this order, directly after
  \<^verbatim>\<open>default\<close> and \<^verbatim>\<open>default_factory\<close> and before the other shared fields, which
  keep catalog order. In approach 2 the declared parameters are \<^verbatim>\<open>default\<close> and, for
  Header, \<^verbatim>\<open>convert_underscores\<close> after it.
\<close>

theorem field_order:
  "map fst (params approach1_Path_sig) = catalog_fields
   \<and> map fst (params approach3_Path_sig) = catalog_fields
   \<and> map fst (params approach1_Query_sig) = catalog_fields
   \<and> map fst (params approach3_Query_sig) = catalog_fields
   \<and> map fst (params approach1_Body_sig)
       = take 2 catalog_fields @ exclusive_fields Body @ drop 2 catalog_fields
   \<and> map fst (params approach3_Body_sig)
       = take 2 catalog_fields @ exclusive_fields Body @ drop 2 catalog_fields
   \<and> take 2 catalog_fields = [''default'', ''default_factory'']
   \<and> filter (\<lambda>n. n \<in> set catalog_fields) (map fst (params approach1_Body_sig)) = catalog_fields
   \<and> filter (\<lambda>n. n \<in> set catalog_fields) (map fst (params approach3_Body_sig)) = catalog_fields
   \<and> map fst (params approach2_Path_sig) = [''default'']
   \<and> map fst (params approach2_Query_sig) = [''default'']
   \<and> map fst (params approach2_Header_sig) = [''default''] @ exclusive_fields Header"
proof -
  have "filter (\<lambda>n. n \<in> set catalog_fields)
      (take 2 catalog_fields @ exclusive_fields Body @ drop 2 catalog_fields) = catalog_fields"
    by (simp add: catalog_fields_def)
  moreover have "take 2 catalog_fields = [''default'', ''default_factory'']"
    by (simp add: catalog_fields_def)
  ultimately show ?thesis
    by (simp add: approach3_sigs sig_names del: filter_append)
qed

text \<open>
  C7 as stated fails for Body: its parameters are not the shared fields followed by the
  exclusive fields.
\<close>

theorem field_order_counterexample:
  "map fst (params approach1_Body_sig) \<noteq> catalog_fields @ exclusive_fields Body"
  by (simp add: approach1_Body_sig_def catalog_fields_def)

section \<open>Facts shared by the nine constructors\<close>

lemma sig_static:
  "set build_param_kwargs_keys = set (map fst (params approach1_Path_sig))"
  "set build_param_kwargs_keys = set (map fst (params approach1_Query_sig))"
  "set approach1_Body_keywords = set (map fst (params approach1_Body_sig))"
  "set ([''embed'', ''media_type''] @ build_param_kwargs_keys) = set (map fst (params approach1_Body_sig))"
  "set [''default''] = set (map fst (params approach2_Path_sig))"
  "set [''default''] = set (map fst (params approach2_Query_sig))"
  "set [''default'', ''convert_underscores''] = set (map fst (params approach2_Header_sig))"
  "set (map fst (params approach1_Path_sig)) \<subseteq> set (schema_fields Path)"
  "set (map fst (params approach1_Query_sig)) \<subseteq> set (schema_fields Query)"
  "set (map fst (params approach1_Body_sig)) \<subseteq> set (schema_fields Body)"
  "set (map fst (params approach2_Path_sig)) \<subseteq> set (schema_fields Path)"
  "set (map fst (params approach2_Query_sig)) \<subseteq> set (schema_fields Query)"
  "set (map fst (params approach2_Header_sig)) \<subseteq> set (schema_fields Header)"
  "''default'' \<in> set (map fst (params approach1_Path_sig))"
  "''default'' \<in> set (map fst (params approach1_Query_sig))"
  "''default'' \<in> set (map fst (params approach1_Body_sig))"
  "''default'' \<in> set (map fst (params approach2_Path_sig))"
  "''default'' \<in> set (map fst (params approach2_Query_sig))"
  "''default'' \<in> set (map fst (params approach2_Header_sig))"
  by (simp_all add: approach1_Path_sig_def approach1_Query_sig_def approach1_Body_sig_def
      approach2_Path_sig_def approach2_Query_sig_def approach2_Header_sig_def
      build_param_kwargs_keys_def approach1_Body_keywords_def schema_fields_def
      catalog_fields_def insert_commute)

lemma positionals:
  "positional approach1_Path_sig = [''default'']" "positional approach1_Query_sig = [''default'']"
  "positional approach1_Body_sig = [''default'']" "positional approach2_Path_sig = [''default'']"
  "positional approach2_Query_sig = [''default'']" "positional approach2_Header_sig = [''default'']"
  by (simp_all add: approach1_Path_sig_def approach1_Query_sig_def approach1_Body_sig_def
      approach2_Path_sig_def approach2_Query_sig_def approach2_Header_sig_def)

lemma constructors_cases:
  assumes "(C, sg, K) \<in> set constructors"
  obtains order where
    "\<And>pos kw. C pos kw = construct sg order K pos kw"
    "set order = set (map fst (params sg))"
    "open_sig sg"
    "positional sg = [''default'']"
    "set (map fst (params sg)) \<subseteq> set (schema_fields K)"
    "''default'' \<in> set (map fst (params sg))"
proof -
  consider
      "C = approach1_Path" "sg = approach1_Path_sig" "K = Path"
    | "C = approach1_Query" "sg = approach1_Query_sig" "K = Query"
    | "C = approach1_Body" "sg = approach1_Body_sig" "K = Body"
    | "C = approach2_Path" "sg = approach2_Path_sig" "K = Path"
    | "C = approach2_Query" "sg = approach2_Query_sig" "K = Query"
    | "C = approach2_Header" "sg = approach2_Header_sig" "K = Header"
    | "C = approach3_Path" "sg = approach1_Path_sig" "K = Path"
    | "C = approach3_Query" "sg = approach1_Query_sig" "K = Query"
    | "C = approach3_Body" "sg = approach1_Body_sig" "K = Body"
    using assms unfolding constructors_def approach3_sigs by auto
  then show thesis
  proof cases
    case 1
    show ?thesis
      by (rule that[of build_param_kwargs_keys]; simp only: 1; rule approach1_nf sig_static open_sigs positionals)
  next
    case 2
    show ?thesis
      by (rule that[of build_param_kwargs_keys]; simp only: 2; rule approach1_nf sig_static open_sigs positionals)
  next
    case 3
    show ?thesis
      by (rule that[of approach1_Body_keywords]; simp only: 3; rule approach1_nf sig_static open_sigs positionals)
  next
    case 4
    show ?thesis
      by (rule that[of "[''default'']"]; simp only: 4;
          rule approach2_nf sig_static open_sigs positionals)
  next
    case 5
    show ?thesis
      by (rule that[of "[''default'']"]; simp only: 5;
          rule approach2_nf sig_static open_sigs positionals)
  next
    case 6
    show ?thesis
      by (rule that[of "[''default'', ''convert_underscores'']"]; simp only: 6;
          rule approach2_nf sig_static open_sigs positionals)
  next
    case 7
    show ?thesis
      by (rule that[of build_param_kwargs_keys]; simp only: 7; rule approach3_nf sig_static open_sigs positionals)
  next
    case 8
    show ?thesis
      by (rule that[of build_param_kwargs_keys]; simp only: 8; rule approach3_nf sig_static open_sigs positionals)
  next
    case 9
    show ?thesis
      by (rule that[of "[''embed'', ''media_type''] @ build_param_kwargs_keys"]; simp only: 9;
          rule approach3_nf sig_static open_sigs positionals)
  qed
qed


lemma first_dup_default:
  assumes "distinct ks"
  shows "first_dup (''default'' # ks) = (if ''default'' \<in> set ks then Some ''default'' else None)"
  using assms by (simp add: first_dup_None[THEN iffD2])

lemma map_of_filter_key:
  "map_of (filter (\<lambda>(k, v). P k) xs) k = (if P k then map_of xs k else None)"
  by (induction xs) auto

lemma map_of_explicit:
  "map_of (map (\<lambda>n. (n, f n)) order @ rest) n
     = (if n \<in> set order then Some (f n) else map_of rest n)"
  by (simp add: map_of_map_restrict restrict_map_def map_add_def split: option.splits)

section \<open>Unknown keywords\<close>

text \<open>
  C1. Every constructor declares the catch-all (\<^verbatim>\<open>**extra\<close> or
  \<^verbatim>\<open>**common_params\<close>), which is how the source permits passthrough. A call that
  binds (at most one positional argument, no keyword given twice) and supplies a keyword
  whose name is no field of the kind succeeds, returns a descriptor of the kind, and
  that keyword is in the descriptor's extra bag; the extra bag is exactly the keywords
  of the call with unknown names, in the order of the call.
\<close>

theorem unknown_keywords_pass_through:
  assumes "(C, sg, K) \<in> set constructors"
    and "length pos \<le> 1"
    and "distinct (map fst (zip [''default''] pos @ kw))"
    and "(k, v) \<in> set kw"
    and "k \<notin> set (schema_fields K)"
  shows "var_keyword sg
    \<and> (\<exists>d. C pos kw = Inr d \<and> d_kind d = K \<and> (k, v) \<in> set (extra_bag d)
          \<and> extra_bag d = filter (\<lambda>(k, v). k \<notin> set (schema_fields K)) kw)"
  using assms(1)
proof (cases rule: constructors_cases)
  case (1 order)
  let ?given = "zip [''default''] pos @ kw"
  let ?names = "set (map fst (params sg))"
  let ?d = "\<lparr>d_kind = K,
             d_kwargs = map (\<lambda>n. (n, arg_of sg ?given n)) order
               @ filter (\<lambda>(k, v). k \<notin> ?names) kw\<rparr>"
  have "first_dup (map fst ?given) = None"
    using assms(3) by (simp only: first_dup_None)
  then have c: "C pos kw = Inr ?d"
    using assms(2) by (simp add: 1(1,4) construct_def)
  have e1: "filter (\<lambda>(k, v). k \<notin> set (schema_fields K)) (map (\<lambda>n. (n, arg_of sg ?given n)) order) = []"
    using 1(2,5) by (auto simp: filter_empty_conv)
  have e2: "filter (\<lambda>(k, v). k \<notin> set (schema_fields K)) (filter (\<lambda>(k, v). k \<notin> ?names) kw)
      = filter (\<lambda>(k, v). k \<notin> set (schema_fields K)) kw"
    using 1(5) by (auto intro!: filter_cong)
  have e: "extra_bag ?d = filter (\<lambda>(k, v). k \<notin> set (schema_fields K)) kw"
    unfolding extra_bag_def using e1 e2 by simp
  have "(k, v) \<in> set (extra_bag ?d)"
    unfolding e using assms(4,5) by simp
  moreover have "var_keyword sg" using 1(3) by (simp add: open_sig_def)
  ultimately show ?thesis using c e by simp
qed

theorem unknown_keywords_pass_through_witness:
  "var_keyword approach1_Body_sig
   \<and> (\<exists>d. approach1_Body [] [(''title'', PStr ''item''), (''flavour'', PInt 3)] = Inr d
         \<and> d_kind d = Body \<and> (''flavour'', PInt 3) \<in> set (extra_bag d)
         \<and> extra_bag d = filter (\<lambda>(k, v). k \<notin> set (schema_fields Body))
              [(''title'', PStr ''item''), (''flavour'', PInt 3)])"
  by (rule unknown_keywords_pass_through[of approach1_Body approach1_Body_sig Body "[]"
        "[(''title'', PStr ''item''), (''flavour'', PInt 3)]" "''flavour''" "PInt 3"])
    (simp_all add: constructors_def schema_fields_def catalog_fields_def)

section \<open>Keyword order\<close>

text \<open>
  The order in which a call writes its keywords does not matter: two calls with the same
  positional arguments and keyword dictionaries that are equal as dictionaries (the same
  keys with the same values, in any order) raise the same exception or return
  descriptors of the same kind with equal keyword dictionaries. Whether a call has side
  effects or performs I/O is not a statement about these functions: every function of
  the logic is a function of its arguments alone, so the embedding cannot tell a pure
  constructor from an impure one.
\<close>

lemma keyword_order_irrelevant:
  assumes "(C, sg, K) \<in> set constructors"
    and "distinct (map fst kw)" and "distinct (map fst kw')"
    and "map_of kw = map_of kw'"
  shows "same_descriptor (C pos kw) (C pos kw')"
  using assms(1)
proof (cases rule: constructors_cases)
  case (1 order)
  let ?given = "zip [''default''] pos @ kw"
  let ?given' = "zip [''default''] pos @ kw'"
  have keys: "set (map fst kw) = set (map fst kw')"
    using assms(4) by (metis dom_map_of_conv_image_fst set_map)
  have m: "map_of ?given = map_of ?given'"
    using assms(4) by simp
  have a: "arg_of sg ?given = arg_of sg ?given'"
    unfolding arg_of_def m ..
  have x: "map_of (filter (\<lambda>(k, v). k \<notin> set (map fst (params sg))) kw)
      = map_of (filter (\<lambda>(k, v). k \<notin> set (map fst (params sg))) kw')"
    using assms(4) by (intro ext) (simp only: map_of_filter_key)
  have r: "map_of (map (\<lambda>n. (n, arg_of sg ?given n)) order
               @ filter (\<lambda>(k, v). k \<notin> set (map fst (params sg))) kw)
      = map_of (map (\<lambda>n. (n, arg_of sg ?given' n)) order
               @ filter (\<lambda>(k, v). k \<notin> set (map fst (params sg))) kw')"
    using x a by (simp only: map_of_append)
  have f: "first_dup (map fst ?given) = first_dup (map fst ?given')"
  proof (cases pos)
    case Nil
    then show ?thesis using assms(2,3) by (simp add: first_dup_None[THEN iffD2])
  next
    case (Cons p ps)
    have "first_dup (map fst ?given)
        = (if ''default'' \<in> set (map fst kw) then Some ''default'' else None)"
      using Cons first_dup_default[OF assms(2)] by simp
    moreover have "first_dup (map fst ?given')
        = (if ''default'' \<in> set (map fst kw') then Some ''default'' else None)"
      using Cons first_dup_default[OF assms(3)] by simp
    ultimately show ?thesis by (simp only: keys)
  qed
  show ?thesis
    unfolding 1(1) construct_def 1(4) same_descriptor_def using f r
    by (simp split: option.splits)
qed

section \<open>Defaults and kind\<close>

text \<open>
  C8, as the source has it. Every constructor returns a descriptor of its own kind, and
  a declared parameter that the call does not supply reaches the class with the default
  of the signature. The signatures of approaches 1 and 3 declare exactly the fields of
  the kind, with \<^verbatim>\<open>include_in_schema\<close> defaulting to \<^verbatim>\<open>True\<close> and, for Body,
  \<^verbatim>\<open>embed\<close> to \<^verbatim>\<open>None\<close> and \<^verbatim>\<open>media_type\<close> to \<^verbatim>\<open>"application/json"\<close>.
  Approach 2 declares \<^verbatim>\<open>default\<close> only, and for Header \<^verbatim>\<open>convert_underscores\<close>
  with default \<^verbatim>\<open>True\<close>; it gives the other shared fields no default.
\<close>

theorem constructor_defaults_and_kind:
  assumes "(C, sg, K) \<in> set constructors" and "C pos kw = Inr d"
  shows "d_kind d = K
    \<and> (\<forall>n v. map_of (params sg) n = Some (Some v) \<and> n \<notin> fst ` set (zip [''default''] pos @ kw)
          \<longrightarrow> map_of (d_kwargs d) n = Some v)
    \<and> set (map fst (params approach1_Path_sig)) = set (schema_fields Path)
    \<and> set (map fst (params approach3_Path_sig)) = set (schema_fields Path)
    \<and> set (map fst (params approach1_Query_sig)) = set (schema_fields Query)
    \<and> set (map fst (params approach3_Query_sig)) = set (schema_fields Query)
    \<and> set (map fst (params approach1_Body_sig)) = set (schema_fields Body)
    \<and> set (map fst (params approach3_Body_sig)) = set (schema_fields Body)
    \<and> map_of (params approach1_Path_sig) ''include_in_schema'' = Some (Some (PBool True))
    \<and> map_of (params approach3_Path_sig) ''include_in_schema'' = Some (Some (PBool True))
    \<and> map_of (params approach1_Query_sig) ''include_in_schema'' = Some (Some (PBool True))
    \<and> map_of (params approach3_Query_sig) ''include_in_schema'' = Some (Some (PBool True))
    \<and> map_of (params approach1_Body_sig) ''include_in_schema'' = Some (Some (PBool True))
    \<and> map_of (params approach3_Body_sig) ''include_in_schema'' = Some (Some (PBool True))
    \<and> map_of (params approach1_Body_sig) ''embed'' = Some (Some PNone)
    \<and> map_of (params approach3_Body_sig) ''embed'' = Some (Some PNone)
    \<and> map_of (params approach1_Body_sig) ''media_type'' = Some (Some (PStr ''application/json''))
    \<and> map_of (params approach3_Body_sig) ''media_type'' = Some (Some (PStr ''application/json''))
    \<and> params approach2_Path_sig = [(''default'', Some Ellipsis)]
    \<and> params approach2_Query_sig = [(''default'', Some Undefined)]
    \<and> params approach2_Header_sig
        = [(''default'', Some Undefined), (''convert_underscores'', Some (PBool True))]"
proof -
  have dyn: "d_kind d = K
    \<and> (\<forall>n v. map_of (params sg) n = Some (Some v) \<and> n \<notin> fst ` set (zip [''default''] pos @ kw)
          \<longrightarrow> map_of (d_kwargs d) n = Some v)"
    using assms(1)
  proof (cases rule: constructors_cases)
    case (1 order)
    let ?given = "zip [''default''] pos @ kw"
    have d: "d = \<lparr>d_kind = K,
             d_kwargs = map (\<lambda>n. (n, arg_of sg ?given n)) order
               @ filter (\<lambda>(k, v). k \<notin> set (map fst (params sg))) kw\<rparr>"
      using assms(2) unfolding 1(1) construct_def 1(4)
      by (auto split: if_splits option.splits)
    have "map_of (d_kwargs d) n = Some v"
      if "map_of (params sg) n = Some (Some v)" "n \<notin> fst ` set ?given" for n v
    proof -
      have "n \<in> set order"
        using that(1) 1(2) by (metis map_of_SomeD set_map image_eqI fst_conv)
      moreover have "map_of ?given n = None"
        using that(2) by (rule map_of_eq_None_iff[THEN iffD2])
      then have "arg_of sg ?given n = v"
        unfolding arg_of_def using that(1) by (simp only: option.case)
      ultimately show ?thesis unfolding d by (simp only: descriptor.simps map_of_explicit if_True)
    qed
    then show ?thesis using d by simp
  qed
  have names:
    "set catalog_fields = set (schema_fields Path)" "set catalog_fields = set (schema_fields Query)"
    "set (take 2 catalog_fields @ exclusive_fields Body @ drop 2 catalog_fields)
       = set (schema_fields Body)"
    by (simp_all add: schema_fields_def catalog_fields_def insert_commute)
  have defaults:
    "map_of (params approach1_Path_sig) ''include_in_schema'' = Some (Some (PBool True))"
    "map_of (params approach1_Query_sig) ''include_in_schema'' = Some (Some (PBool True))"
    "map_of (params approach1_Body_sig) ''include_in_schema'' = Some (Some (PBool True))"
    "map_of (params approach1_Body_sig) ''embed'' = Some (Some PNone)"
    "map_of (params approach1_Body_sig) ''media_type'' = Some (Some (PStr ''application/json''))"
    "params approach2_Path_sig = [(''default'', Some Ellipsis)]"
    "params approach2_Query_sig = [(''default'', Some Undefined)]"
    "params approach2_Header_sig
        = [(''default'', Some Undefined), (''convert_underscores'', Some (PBool True))]"
    by (simp_all add: approach1_Path_sig_def approach1_Query_sig_def approach1_Body_sig_def
        approach2_Path_sig_def approach2_Query_sig_def approach2_Header_sig_def)
  show ?thesis
    unfolding approach3_sigs sig_names
    by (intro conjI; rule dyn[THEN conjunct1] dyn[THEN conjunct2] names defaults)
qed

theorem constructor_defaults_and_kind_witness:
  "approach1_Body [] [(''title'', PStr ''item'')]
     = Inr \<lparr>d_kind = Body,
            d_kwargs = map (\<lambda>n. (n, arg_of approach1_Body_sig [(''title'', PStr ''item'')] n))
              approach1_Body_keywords\<rparr>
   \<and> d_kind \<lparr>d_kind = Body,
            d_kwargs = map (\<lambda>n. (n, arg_of approach1_Body_sig [(''title'', PStr ''item'')] n))
              approach1_Body_keywords\<rparr> = Body
   \<and> map_of (map (\<lambda>n. (n, arg_of approach1_Body_sig [(''title'', PStr ''item'')] n))
              approach1_Body_keywords) ''media_type'' = Some (PStr ''application/json'')"
proof -
  let ?d = "\<lparr>d_kind = Body,
            d_kwargs = map (\<lambda>n. (n, arg_of approach1_Body_sig [(''title'', PStr ''item'')] n))
              approach1_Body_keywords\<rparr>"
  have c: "approach1_Body [] [(''title'', PStr ''item'')] = Inr ?d"
    by (simp add: approach1_nf construct_def positionals approach1_Body_sig_def)
  have m: "(approach1_Body, approach1_Body_sig, Body) \<in> set constructors"
    by (simp add: constructors_def)
  have s: "map_of (params approach1_Body_sig) ''media_type'' = Some (Some (PStr ''application/json''))"
    by (simp add: approach1_Body_sig_def)
  from constructor_defaults_and_kind[OF m c] s c show ?thesis by simp
qed

text \<open>
  C8 as stated fails for Header: its constructor declares two parameters, not the
  fields of the kind, and a call that supplies nothing hands the class no value for
  \<^verbatim>\<open>include_in_schema\<close>.
\<close>

theorem constructor_defaults_counterexample:
  "map fst (params approach2_Header_sig) = [''default'', ''convert_underscores'']
   \<and> ''include_in_schema'' \<in> set (schema_fields Header)
   \<and> map_of (params approach2_Header_sig) ''include_in_schema'' = None
   \<and> approach2_Header [] []
       = Inr \<lparr>d_kind = Header,
              d_kwargs = [(''default'', Undefined), (''convert_underscores'', PBool True)]\<rparr>"
  by (simp add: approach2_nf construct_def arg_of_def approach2_Header_sig_def
      schema_fields_def catalog_fields_def)

section \<open>The resolved schemas\<close>

lemmas schema_defs = resolved_schema_def shared_defaults_def approach1_Query_sig_def

lemma schema_ids: "map fst (resolved_schema K) = schema_fields K"
  by (cases K) (simp_all add: schema_defs schema_fields_def catalog_fields_def)

lemma schema_required:
  "filter (\<lambda>(n, d). d = Ellipsis \<and> Q n) (resolved_schema K)
     = (if K = Path \<and> Q ''default'' then [(''default'', Ellipsis)] else [])"
  by (cases K) (simp_all add: schema_defs)

lemma schema_defaults:
  "map_of (resolved_schema K) ''default'' = Some (if K = Path then Ellipsis else Undefined)"
  "map_of (resolved_schema K) ''regex'' = Some PNone"
  "map_of (resolved_schema K) ''pattern'' = Some PNone"
  "map_of (resolved_schema K) ''example'' = Some Undefined"
  "map_of (resolved_schema K) ''examples'' = Some PNone"
  "map_of (resolved_schema K) ''gt'' = Some PNone"
  "map_of (resolved_schema K) ''ge'' = Some PNone"
  "map_of (resolved_schema K) ''lt'' = Some PNone"
  "map_of (resolved_schema K) ''le'' = Some PNone"
  "map_of (resolved_schema K) ''multiple_of'' = Some Undefined"
  "map_of (resolved_schema K) ''min_length'' = Some PNone"
  "map_of (resolved_schema K) ''max_length'' = Some PNone"
  by (cases K; simp add: schema_defs)+

lemma passthrough: "permits_passthrough K"
  by (cases K) (simp_all add: approach1_Path_sig_def approach1_Query_sig_def
      approach1_Body_sig_def approach2_Header_sig_def)

lemma sig_in_schema:
  "set (params approach1_Path_sig) \<subseteq> (\<lambda>(n, v). (n, Some v)) ` set (resolved_schema Path)"
  "set (params approach1_Query_sig) \<subseteq> (\<lambda>(n, v). (n, Some v)) ` set (resolved_schema Query)"
  "set (params approach1_Body_sig) \<subseteq> (\<lambda>(n, v). (n, Some v)) ` set (resolved_schema Body)"
  "set (params approach2_Path_sig) \<subseteq> (\<lambda>(n, v). (n, Some v)) ` set (resolved_schema Path)"
  "set (params approach2_Query_sig) \<subseteq> (\<lambda>(n, v). (n, Some v)) ` set (resolved_schema Query)"
  "set (params approach2_Header_sig) \<subseteq> (\<lambda>(n, v). (n, Some v)) ` set (resolved_schema Header)"
  by (simp_all add: schema_defs approach1_Path_sig_def approach1_Body_sig_def
      approach2_Path_sig_def approach2_Query_sig_def approach2_Header_sig_def)


lemma constructors_defaults:
  assumes "(C, sg, K) \<in> set constructors" "map_of (params sg) n = Some (Some v)"
  shows "map_of (resolved_schema K) n = Some v"
proof -
  have "set (params sg) \<subseteq> (\<lambda>(n, v). (n, Some v)) ` set (resolved_schema K)"
    using assms(1) sig_in_schema unfolding constructors_def approach3_sigs by auto
  moreover have "(n, Some v) \<in> set (params sg)"
    using assms(2) by (rule map_of_SomeD)
  ultimately have "(n, v) \<in> set (resolved_schema K)" by auto
  moreover have "distinct (map fst (resolved_schema K))"
    unfolding schema_ids by (rule distinct_schema_fields)
  ultimately show ?thesis by (intro map_of_is_SomeI)
qed

section \<open>Materializing what a constructor hands to the class\<close>

lemma materialize_cong:
  assumes v: "\<And>n d. (n, d) \<in> set (resolved_schema K) \<Longrightarrow> supplied a n d = supplied b n d"
    and u: "filter (\<lambda>(k, v). k \<notin> set (map fst (resolved_schema K))) a
      = filter (\<lambda>(k, v). k \<notin> set (map fst (resolved_schema K))) b"
  shows "materialize K a = materialize K b"
proof -
  have vals: "field_values K a = field_values K b"
    unfolding field_values_def by (intro map_cong refl) (auto simp: v)
  show ?thesis unfolding materialize_def Let_def vals u ..
qed

lemma materialized_constructor:
  assumes "(C, sg, K) \<in> set constructors"
    and "length pos \<le> 1"
    and "distinct (map fst (zip [''default''] pos @ kw))"
  shows "materialized (C pos kw) = materialize K (zip [''default''] pos @ kw)"
  using assms(1)
proof (cases rule: constructors_cases)
  case (1 order)
  let ?given = "zip [''default''] pos @ kw"
  let ?names = "set (map fst (params sg))"
  let ?ids = "set (map fst (resolved_schema K))"
  let ?explicit = "map (\<lambda>n. (n, arg_of sg ?given n)) order"
  let ?extra = "filter (\<lambda>(k, v). k \<notin> ?names) kw"
  have ids: "?ids = set (schema_fields K)" by (simp only: schema_ids)
  have nn: "None \<notin> snd ` set (params sg)" using 1(3) by (simp add: open_sig_def)
  have "first_dup (map fst ?given) = None"
    using assms(3) by (simp only: first_dup_None)
  then have c: "C pos kw = Inr \<lparr>d_kind = K, d_kwargs = ?explicit @ ?extra\<rparr>"
    using assms(2) by (simp add: 1(1,4) construct_def)
  have "materialize K (?explicit @ ?extra) = materialize K ?given"
  proof (rule materialize_cong)
    fix n d
    assume nd: "(n, d) \<in> set (resolved_schema K)"
    have sd: "map_of (resolved_schema K) n = Some d"
      using nd distinct_schema_fields[of K] by (intro map_of_is_SomeI) (simp_all only: schema_ids)
    show "supplied (?explicit @ ?extra) n d = supplied ?given n d"
    proof (cases "n \<in> set order")
      case True
      then have "n \<in> fst ` set (params sg)" using 1(2) by simp
      then obtain w where w: "map_of (params sg) n = Some w"
        by (metis map_of_eq_None_iff not_Some_eq)
      then have "(n, w) \<in> set (params sg)" by (rule map_of_SomeD)
      then have "w \<noteq> None" using nn by force
      then obtain x where x: "w = Some x" by auto
      have "map_of (resolved_schema K) n = Some x"
        using assms(1) w unfolding x by (rule constructors_defaults)
      then have "d = x" using sd by simp
      then have inner: "(case map_of (params sg) n of Some (Some v) \<Rightarrow> v | _ \<Rightarrow> Undefined) = d"
        using w x by simp
      have "arg_of sg ?given n = (case map_of ?given n of Some v \<Rightarrow> v | None \<Rightarrow> d)"
        unfolding arg_of_def inner ..
      then show ?thesis using True by (simp only: supplied_def map_of_explicit if_True option.case)
    next
      case False
      then have nn': "n \<notin> ?names" using 1(2) by simp
      then have "n \<noteq> ''default''" using 1(6) by auto
      then have "map_of (zip [''default''] pos) n = None"
        by (cases pos) auto
      then have "map_of ?given n = map_of kw n"
        by (simp add: map_add_def)
      moreover have "map_of ?extra n = map_of kw n"
        using nn' by (simp add: map_of_filter_key)
      ultimately show ?thesis using False by (simp only: supplied_def map_of_explicit if_False)
    qed
  next
    have e1: "filter (\<lambda>(k, v). k \<notin> ?ids) ?explicit = []"
      unfolding ids using 1(2,5) by (auto simp: filter_empty_conv)
    have e2: "filter (\<lambda>(k, v). k \<notin> ?ids) ?extra = filter (\<lambda>(k, v). k \<notin> ?ids) kw"
      unfolding ids using 1(5) by (auto intro!: filter_cong)
    have e3: "filter (\<lambda>(k, v). k \<notin> ?ids) (zip [''default''] pos) = []"
      unfolding ids using 1(5,6) by (cases pos) auto
    show "filter (\<lambda>(k, v). k \<notin> ?ids) (?explicit @ ?extra) = filter (\<lambda>(k, v). k \<notin> ?ids) ?given"
      using e1 e2 e3 by simp
  qed
  then show ?thesis by (simp add: c materialized_def then_do_def)
qed

text \<open>
  The steps of \<open>materialize\<close> in terms of the supplied values: the lookups in the
  schema are done once here.
\<close>

lemma field_values_lookup:
  "map_of (field_values K vs) n = map_option (supplied vs n) (map_of (resolved_schema K) n)"
  unfolding field_values_def by (rule map_of_bound)

lemma field_values_at:
  "map_of (field_values K vs) ''default''
     = Some (supplied vs ''default'' (if K = Path then Ellipsis else Undefined))"
  "map_of (field_values K vs) ''gt'' = Some (supplied vs ''gt'' PNone)"
  "map_of (field_values K vs) ''ge'' = Some (supplied vs ''ge'' PNone)"
  "map_of (field_values K vs) ''lt'' = Some (supplied vs ''lt'' PNone)"
  "map_of (field_values K vs) ''le'' = Some (supplied vs ''le'' PNone)"
  "map_of (field_values K vs) ''multiple_of'' = Some (supplied vs ''multiple_of'' Undefined)"
  "map_of (field_values K vs) ''min_length'' = Some (supplied vs ''min_length'' PNone)"
  "map_of (field_values K vs) ''max_length'' = Some (supplied vs ''max_length'' PNone)"
  "map_of (field_values K vs) ''regex'' = Some (supplied vs ''regex'' PNone)"
  "map_of (field_values K vs) ''pattern'' = Some (supplied vs ''pattern'' PNone)"
  "map_of (field_values K vs) ''example'' = Some (supplied vs ''example'' Undefined)"
  "map_of (field_values K vs) ''examples'' = Some (supplied vs ''examples'' PNone)"
  by (simp_all only: field_values_lookup schema_defaults option.map)

lemma materialize_steps:
  "materialize K vs =
     (if K = Path \<and> supplied vs ''default'' Ellipsis = Ellipsis
      then Inl (MissingRequiredFieldError ''default'')
      else (case violated (field_values K vs) of
          c # rest \<Rightarrow> Inl (ConstraintViolationError ''default'' c)
        | [] \<Rightarrow>
           (if supplied vs ''regex'' PNone \<noteq> PNone \<and> supplied vs ''pattern'' PNone \<noteq> PNone
            then Inl (ConflictingFieldError ''regex'' ''pattern'')
            else if supplied vs ''example'' Undefined \<noteq> Undefined
                  \<and> supplied vs ''examples'' PNone \<noteq> PNone
            then Inl (ConflictingFieldError ''example'' ''examples'')
            else Inr (\<lparr>pd_kind = K, pd_fields = field_values K vs,
                       pd_extra = filter (\<lambda>(k, v). k \<notin> set (schema_fields K)) vs\<rparr>,
                      (if supplied vs ''regex'' PNone \<noteq> PNone then [''regex''] else [])
                        @ (if supplied vs ''example'' Undefined \<noteq> Undefined
                           then [''example''] else [])))))"
proof -
  have req: "filter (\<lambda>(n, d). d = Ellipsis \<and> map_of (field_values K vs) n = Some Ellipsis)
        (resolved_schema K)
      = (if K = Path \<and> supplied vs ''default'' Ellipsis = Ellipsis
         then [(''default'', Ellipsis)] else [])"
    unfolding schema_required by (simp add: field_values_at)
  show ?thesis
    unfolding materialize_def Let_def req
    by (simp add: passthrough deprecated_fields_def field_values_at schema_defaults schema_ids
        split: list.splits)
qed

section \<open>Required fields, constraints and deprecated fields\<close>

lemma constructors_default_param:
  assumes "(C, sg, K) \<in> set constructors"
  shows "map_of (params sg) ''default'' = Some (Some (if K = Path then Ellipsis else Undefined))"
  using assms unfolding constructors_def approach3_sigs
  by (auto simp: approach1_Path_sig_def approach1_Query_sig_def approach1_Body_sig_def
      approach2_Path_sig_def approach2_Query_sig_def approach2_Header_sig_def)

lemma violated_unconstrained:
  assumes "map_of vs ''gt'' = None" "map_of vs ''ge'' = None" "map_of vs ''lt'' = None"
    "map_of vs ''le'' = None" "map_of vs ''multiple_of'' = None"
    "map_of vs ''min_length'' = None" "map_of vs ''max_length'' = None"
  shows "violated (field_values K vs) = []"
proof -
  have s: "supplied vs ''gt'' PNone = PNone" "supplied vs ''ge'' PNone = PNone"
    "supplied vs ''lt'' PNone = PNone" "supplied vs ''le'' PNone = PNone"
    "supplied vs ''multiple_of'' Undefined = Undefined"
    "supplied vs ''min_length'' PNone = PNone" "supplied vs ''max_length'' PNone = PNone"
    using assms by (simp_all add: supplied_def)
  show ?thesis
    by (cases "supplied vs ''default'' (if K = Path then Ellipsis else Undefined)")
      (simp_all add: violated_def field_values_at s)
qed

text \<open>
  C2 (against the modelled validator). In every approach the \<^verbatim>\<open>default\<close> parameter of
  Path defaults to the required sentinel \<^verbatim>\<open>...\<close> and that of Query to
  \<^verbatim>\<open>Undefined\<close>. Materializing a Path descriptor built from a call that supplies no
  \<^verbatim>\<open>default\<close> fails with \<^verbatim>\<open>MissingRequiredFieldError\<close> for that field; materializing
  the Query descriptor built from a call that supplies nothing succeeds, with the default
  \<^verbatim>\<open>Undefined\<close> and no deprecation notice.
\<close>

theorem required_default:
  assumes "(C, sg, K) \<in> set constructors"
  shows "(K = Path \<longrightarrow>
            map_of (params sg) ''default'' = Some (Some Ellipsis)
          \<and> (distinct (map fst kw) \<and> ''default'' \<notin> fst ` set kw \<longrightarrow>
               materialized (C [] kw) = Inl (MissingRequiredFieldError ''default'')))
       \<and> (K = Query \<longrightarrow>
            map_of (params sg) ''default'' = Some (Some Undefined)
          \<and> (\<exists>pd. materialized (C [] []) = Inr (pd, []) \<and> pd_kind pd = Query
                \<and> map_of (pd_fields pd) ''default'' = Some Undefined))"
proof -
  have p: "materialized (C [] kw) = Inl (MissingRequiredFieldError ''default'')"
    if "K = Path" "distinct (map fst kw)" "''default'' \<notin> fst ` set kw"
  proof -
    have "map_of kw ''default'' = None"
      using that(3) by (rule map_of_eq_None_iff[THEN iffD2])
    moreover have "materialized (C [] kw) = materialize K (zip [''default''] [] @ kw)"
      using assms that(2) by (intro materialized_constructor) simp_all
    ultimately show ?thesis
      using that(1) by (simp add: materialize_steps supplied_def)
  qed
  have q: "\<exists>pd. materialized (C [] []) = Inr (pd, []) \<and> pd_kind pd = Query
                \<and> map_of (pd_fields pd) ''default'' = Some Undefined"
    if "K = Query"
  proof -
    have "materialized (C [] []) = materialize K (zip [''default''] [] @ [])"
      using assms by (intro materialized_constructor) simp_all
    moreover have "violated (field_values K []) = []"
      by (rule violated_unconstrained) simp_all
    ultimately show ?thesis
      using that by (simp add: materialize_steps supplied_def field_values_at)
  qed
  show ?thesis
    using constructors_default_param[OF assms] p q by simp
qed

theorem required_default_witness:
  "map_of (params approach2_Path_sig) ''default'' = Some (Some Ellipsis)
   \<and> materialized (approach2_Path [] [(''title'', PStr ''item'')])
       = Inl (MissingRequiredFieldError ''default'')
   \<and> map_of (params approach2_Query_sig) ''default'' = Some (Some Undefined)
   \<and> (\<exists>pd. materialized (approach2_Query [] []) = Inr (pd, []) \<and> pd_kind pd = Query
         \<and> map_of (pd_fields pd) ''default'' = Some Undefined)"
  using required_default[of approach2_Path approach2_Path_sig Path "[(''title'', PStr ''item'')]"]
    required_default[of approach2_Query approach2_Query_sig Query "[]"]
  by (simp add: constructors_def)

text \<open>
  C5 (against the modelled validator). For every constructor, the descriptor built with
  \<^verbatim>\<open>gt=0\<close> and the value \<^verbatim>\<open>-1\<close> fails to materialize with
  \<^verbatim>\<open>ConstraintViolationError\<close> naming the field \<^verbatim>\<open>default\<close> and the constraint
  \<^verbatim>\<open>gt\<close>; with the value \<^verbatim>\<open>5\<close> it materializes, with no deprecation notice.
\<close>

theorem gt_constraint:
  assumes "(C, sg, K) \<in> set constructors"
  shows "materialized (C [PInt (- 1)] [(''gt'', PInt 0)])
           = Inl (ConstraintViolationError ''default'' ''gt'')
       \<and> (\<exists>pd. materialized (C [PInt 5] [(''gt'', PInt 0)]) = Inr (pd, [])
             \<and> pd_kind pd = K
             \<and> map_of (pd_fields pd) ''default'' = Some (PInt 5)
             \<and> map_of (pd_fields pd) ''gt'' = Some (PInt 0))"
proof -
  have m: "materialized (C [PInt x] [(''gt'', PInt 0)])
      = materialize K [(''default'', PInt x), (''gt'', PInt 0)]" for x
    using materialized_constructor[OF assms, of "[PInt x]" "[(''gt'', PInt 0)]"] by simp
  have v: "violated (field_values K [(''default'', PInt x), (''gt'', PInt 0)])
      = (if 0 < x then [] else [''gt''])" for x
    by (simp add: violated_def field_values_at supplied_def)
  show ?thesis
    by (simp add: m materialize_steps v supplied_def field_values_at)
qed

theorem gt_constraint_witness:
  "materialized (approach2_Header [PInt (- 1)] [(''gt'', PInt 0)])
     = Inl (ConstraintViolationError ''default'' ''gt'')
   \<and> (\<exists>pd. materialized (approach2_Header [PInt 5] [(''gt'', PInt 0)]) = Inr (pd, [])
         \<and> pd_kind pd = Header
         \<and> map_of (pd_fields pd) ''default'' = Some (PInt 5)
         \<and> map_of (pd_fields pd) ''gt'' = Some (PInt 0))"
  by (rule gt_constraint[of approach2_Header approach2_Header_sig Header])
    (simp add: constructors_def)



end
